theory Spec2Isabelle
  imports Main "HOL-Library.AList"
begin

section \<open>Python values used by scrape.py\<close>

text \<open>
  Python strings are modelled as \<^typ>\<open>string\<close>: lists of characters with code points
  below 256. Exceptions are values of \<open>error\<close>; a function that can raise returns
  \<open>error + 'a\<close> with \<open>Inl\<close> for the exception.
\<close>

datatype error =
    AttributeError
  | IndexError
  | KeyError
  | TypeError
  | ValueError
  | TimeoutError
  | Exception string

text \<open>Character classes of the regular expression and of \<open>int()\<close>.\<close>

definition is_upper :: "char \<Rightarrow> bool" where
  "is_upper c \<longleftrightarrow> 65 \<le> (of_char c :: nat) \<and> (of_char c :: nat) \<le> 90"

definition is_digit :: "char \<Rightarrow> bool" where
  "is_digit c \<longleftrightarrow> 48 \<le> (of_char c :: nat) \<and> (of_char c :: nat) \<le> 57"

definition digit_val :: "char \<Rightarrow> int" where
  "digit_val c = int (of_char c) - 48"

text \<open>
  The white space that \<open>int()\<close> accepts around a literal, for the code points below 256:
  tab, line feed, vertical tab, form feed, carriage return, space, U+0085 and U+00A0. The
  separators U+001C to U+001F are white space for \<open>str.isspace\<close> but not for \<open>int()\<close>.
\<close>

definition is_int_space :: "char \<Rightarrow> bool" where
  "is_int_space c \<longleftrightarrow> (of_char c :: nat) \<in> {9, 10, 11, 12, 13, 32, 133, 160}"

definition int_strip :: "string \<Rightarrow> string" where
  "int_strip s = rev (dropWhile is_int_space (rev (dropWhile is_int_space s)))"

text \<open>
  \<open>int(s)\<close> in base ten: surrounding white space is removed, one sign is allowed, and
  the rest is decimal digits, where a single underscore may stand between two digits. A
  literal of more than 4300 digits is refused (the default limit of CPython 3.11 on the
  conversion of strings, which counts leading zeros and no underscores). Anything else
  raises \<open>ValueError\<close>.
\<close>

fun int_body :: "string \<Rightarrow> bool" where
  "int_body [] = False"
| "int_body [c] = is_digit c"
| "int_body (c # u # cs) =
     (is_digit c \<and> (if u = CHR ''_'' then int_body cs else int_body (u # cs)))"

definition digits_value :: "string \<Rightarrow> int" where
  "digits_value s = foldl (\<lambda>acc c. 10 * acc + digit_val c) 0 (filter is_digit s)"

definition py_int :: "string \<Rightarrow> error + int" where
  "py_int s =
     (let t = int_strip s;
          neg = (case t of [] \<Rightarrow> False | c # _ \<Rightarrow> c = CHR ''-'');
          body = (case t of [] \<Rightarrow> [] | c # r \<Rightarrow> if c = CHR ''-'' \<or> c = CHR ''+'' then r else t)
      in if int_body body \<and> length (filter is_digit body) \<le> 4300
         then Inr (if neg then - digits_value body else digits_value body)
         else Inl ValueError)"

text \<open>\<open>s.split(' ')\<close>: cut at every single space; neighbouring spaces give empty pieces.\<close>

fun split_space :: "string \<Rightarrow> string list" where
  "split_space [] = [[]]"
| "split_space (c # cs) =
     (if c = CHR '' '' then [] # split_space cs
      else (case split_space cs of [] \<Rightarrow> [[c]] | w # ws \<Rightarrow> (c # w) # ws))"

section \<open>Data model\<close>

text \<open>
  The dataclasses \<open>Time\<close> and \<open>TimeSpan\<close>. The fields \<open>start\<close> and \<open>end\<close> of \<open>TimeSpan\<close> are
  named \<open>span_start\<close> and \<open>span_end\<close> here. A Python \<open>dict\<close> is an association list with
  distinct keys in insertion order; assigning to a key that is present keeps its position
  (\<^const>\<open>AList.update\<close>).
\<close>

record Time =
  hour :: int
  minute :: int

record TimeSpan =
  span_start :: Time
  span_end :: Time

type_synonym times_dict = "(string \<times> TimeSpan) list"

section \<open>parse_time\<close>

text \<open>
  The named groups of a successful \<open>re.match(pattern, time)\<close> with the pattern
  \<^verbatim>\<open>(?P<days>[A-Z]+):(?P<start_hour>\d{2})(?P<start_minute>\d{2})\-(?P<end_hour>\d{2})(?P<end_minute>\d{2})\<close>.
\<close>

record time_match =
  days :: string
  start_hour :: string
  start_minute :: string
  end_hour :: string
  end_minute :: string

text \<open>
  \<open>re.match\<close> anchors the pattern at the start of the token only. \<open>[A-Z]+\<close> is greedy and
  is followed by a colon, which is no capital letter, so the only run of capitals that can
  lead to a match is the longest one.
\<close>

definition re_match_time :: "string \<Rightarrow> time_match option" where
  "re_match_time tok =
     (let ds = takeWhile is_upper tok in
      if ds = [] then None
      else (case dropWhile is_upper tok of
              c # h1 # h2 # m1 # m2 # d # h3 # h4 # m3 # m4 # _ \<Rightarrow>
                if c = CHR '':'' \<and> is_digit h1 \<and> is_digit h2 \<and> is_digit m1 \<and> is_digit m2
                   \<and> d = CHR ''-'' \<and> is_digit h3 \<and> is_digit h4 \<and> is_digit m3 \<and> is_digit m4
                then Some \<lparr>days = ds, start_hour = [h1, h2], start_minute = [m1, m2],
                           end_hour = [h3, h4], end_minute = [m3, m4]\<rparr>
                else None
            | _ \<Rightarrow> None))"

text \<open>Lines 56 to 63: the four \<open>int()\<close> conversions and the \<open>TimeSpan\<close>.\<close>

definition time_span_of :: "time_match \<Rightarrow> error + TimeSpan" where
  "time_span_of m =
     (case py_int (start_hour m) of Inl e \<Rightarrow> Inl e | Inr sh \<Rightarrow>
     (case py_int (start_minute m) of Inl e \<Rightarrow> Inl e | Inr sm \<Rightarrow>
     (case py_int (end_hour m) of Inl e \<Rightarrow> Inl e | Inr eh \<Rightarrow>
     (case py_int (end_minute m) of Inl e \<Rightarrow> Inl e | Inr em \<Rightarrow>
        Inr \<lparr>span_start = \<lparr>hour = sh, minute = sm\<rparr>,
             span_end = \<lparr>hour = eh, minute = em\<rparr>\<rparr>))))"

text \<open>Line 65: \<open>times.update({day: time_span for day in days})\<close>; a day is a one-character string.\<close>

definition update_days :: "string \<Rightarrow> TimeSpan \<Rightarrow> times_dict \<Rightarrow> times_dict" where
  "update_days ds sp tms = fold (\<lambda>day. AList.update [day] sp) ds tms"

fun parse_time_loop :: "times_dict \<Rightarrow> string list \<Rightarrow> error + times_dict" where
  "parse_time_loop tms [] = Inr tms"
| "parse_time_loop tms (t # ts) =
     (case re_match_time t of
        None \<Rightarrow> parse_time_loop tms ts
      | Some m \<Rightarrow>
          (case time_span_of m of
             Inl e \<Rightarrow> Inl e
           | Inr sp \<Rightarrow> parse_time_loop (update_days (days m) sp tms) ts))"

definition time_tokens :: "string \<Rightarrow> string list" where
  "time_tokens course_times = filter (\<lambda>t. t \<noteq> []) (split_space course_times)"

definition parse_time :: "string \<Rightarrow> error + times_dict" where
  "parse_time course_times = parse_time_loop [] (time_tokens course_times)"

text \<open>
  The invariant the specification states for \<open>Time\<close> (section 3), and the bound that two
  decimal digits give.
\<close>

definition time_invariant :: "Time \<Rightarrow> bool" where
  "time_invariant tm \<longleftrightarrow> 0 \<le> hour tm \<and> hour tm \<le> 23 \<and> 0 \<le> minute tm \<and> minute tm \<le> 59"

definition two_digit_time :: "Time \<Rightarrow> bool" where
  "two_digit_time tm \<longleftrightarrow> 0 \<le> hour tm \<and> hour tm \<le> 99 \<and> 0 \<le> minute tm \<and> minute tm \<le> 99"

section \<open>Course records and the insert query\<close>

text \<open>
  The dataclass \<open>Course\<close>. Its fields \<open>id\<close> and \<open>term\<close> are named \<open>course_id\<close> and
  \<open>term_name\<close> here.
\<close>

record Course =
  crn :: string
  course_id :: string
  term_name :: string
  term_code :: string
  subject :: string
  subject_code :: string
  attributes :: "string list"
  title :: string
  instructor :: string
  credit_hours :: string
  time :: times_dict
  proj_enr :: int
  curr_enr :: int
  seats_avail :: string
  status :: string

text \<open>\<open>sep.join(xs)\<close>.\<close>

fun str_join :: "string \<Rightarrow> string list \<Rightarrow> string" where
  "str_join sep [] = []"
| "str_join sep [x] = x"
| "str_join sep (x # y # ys) = x @ sep @ str_join sep (y # ys)"

text \<open>\<open>str(n)\<close> for an integer: decimal digits, with a minus sign when negative.\<close>

definition digit_char :: "nat \<Rightarrow> char" where
  "digit_char d = char_of (48 + d)"

fun str_nat :: "nat \<Rightarrow> string" where
  "str_nat n = (if n < 10 then [digit_char n] else str_nat (n div 10) @ [digit_char (n mod 10)])"

definition str_int :: "int \<Rightarrow> string" where
  "str_int i = (if i < 0 then CHR ''-'' # str_nat (nat (- i)) else str_nat (nat i))"

text \<open>Lines 167 to 169: every value between double quotes, joined by \<open>", "\<close>, in braces.\<close>

definition quoted :: "string \<Rightarrow> string" where
  "quoted s = [CHR 0x22] @ s @ [CHR 0x22]"

definition list_to_db_array :: "string list \<Rightarrow> string" where
  "list_to_db_array li = ''{'' @ str_join '', '' (map quoted li) @ ''}''"

text \<open>
  \<open>json.dumps\<close> with its default settings. A string is written between double quotes
  with \<open>ensure_ascii\<close>: backslash and double quote get a backslash, the control
  characters \<open>\b \f \n \r \t\<close> their short escapes, and every other character outside
  the range from space to tilde becomes \<open>\u00xx\<close> with lower-case hexadecimal digits.
\<close>

definition hex_digit :: "nat \<Rightarrow> char" where
  "hex_digit d = (if d < 10 then char_of (48 + d) else char_of (87 + d))"

definition json_escape_char :: "char \<Rightarrow> string" where
  "json_escape_char c =
     (if c = CHR 0x5C then [CHR 0x5C, CHR 0x5C]
      else if c = CHR 0x22 then [CHR 0x5C, CHR 0x22]
      else if c = CHR 0x08 then [CHR 0x5C, CHR ''b'']
      else if c = CHR 0x0C then [CHR 0x5C, CHR ''f'']
      else if c = CHR 0x0A then [CHR 0x5C, CHR ''n'']
      else if c = CHR 0x0D then [CHR 0x5C, CHR ''r'']
      else if c = CHR 0x09 then [CHR 0x5C, CHR ''t'']
      else if 32 \<le> (of_char c :: nat) \<and> (of_char c :: nat) \<le> 126 then [c]
      else [CHR 0x5C, CHR ''u'', CHR ''0'', CHR ''0'',
            hex_digit ((of_char c :: nat) div 16), hex_digit ((of_char c :: nat) mod 16)])"

definition json_string :: "string \<Rightarrow> string" where
  "json_string s = [CHR 0x22] @ concat (map json_escape_char s) @ [CHR 0x22]"

text \<open>
  \<open>dataclasses.asdict\<close> turns a \<open>TimeSpan\<close> into nested dictionaries with the field names
  as keys, in the order of declaration; \<open>json.dumps\<close> separates items by \<open>", "\<close> and a
  key from its value by \<open>": "\<close>.
\<close>

definition json_time :: "Time \<Rightarrow> string" where
  "json_time tm =
     ''{'' @ json_string ''hour'' @ '': '' @ str_int (hour tm) @ '', ''
           @ json_string ''minute'' @ '': '' @ str_int (minute tm) @ ''}''"

definition json_time_span :: "TimeSpan \<Rightarrow> string" where
  "json_time_span sp =
     ''{'' @ json_string ''start'' @ '': '' @ json_time (span_start sp) @ '', ''
           @ json_string ''end'' @ '': '' @ json_time (span_end sp) @ ''}''"

definition json_item :: "string \<times> TimeSpan \<Rightarrow> string" where
  "json_item kv = json_string (fst kv) @ '': '' @ json_time_span (snd kv)"

definition times_to_json :: "times_dict \<Rightarrow> string" where
  "times_to_json tms = ''{'' @ str_join '', '' (map json_item tms) @ ''}''"

text \<open>Lines 176 to 180: the tuple of one course, every value between single quotes.\<close>

definition course_to_db_insert_query :: "Course \<Rightarrow> string" where
  "course_to_db_insert_query c =
     ''('' @ str_join '', ''
       (map (\<lambda>v. [CHR 0x27] @ v @ [CHR 0x27])
         [crn c, course_id c, term_name c, term_code c, subject c, subject_code c,
          list_to_db_array (attributes c), title c, instructor c, credit_hours c,
          times_to_json (time c), str_int (proj_enr c), str_int (curr_enr c),
          seats_avail c, status c]) @ '')''"

text \<open>
  A reader for the documents that \<open>times_to_json\<close> writes: JSON strings with their
  escapes, decimal integers, and objects with the separators of \<open>json.dumps\<close>. It
  stands for \<open>json.loads\<close> followed by rebuilding \<open>TimeSpan\<close> values from the nested
  dictionaries. Every function returns the value read and the rest of the input.
\<close>

fun read_lit :: "string \<Rightarrow> string \<Rightarrow> string option" where
  "read_lit [] s = Some s"
| "read_lit (c # cs) [] = None"
| "read_lit (c # cs) (x # xs) = (if c = x then read_lit cs xs else None)"

definition read_int :: "string \<Rightarrow> (int \<times> string) option" where
  "read_int s =
     (let neg = (case s of [] \<Rightarrow> False | c # _ \<Rightarrow> c = CHR ''-'');
          r = (if neg then tl s else s);
          ds = takeWhile is_digit r
      in if ds = [] then None
         else Some (if neg then - digits_value ds else digits_value ds, dropWhile is_digit r))"

definition hex_val :: "char \<Rightarrow> nat option" where
  "hex_val c =
     (let n = (of_char c :: nat) in
      if 48 \<le> n \<and> n \<le> 57 then Some (n - 48)
      else if 97 \<le> n \<and> n \<le> 102 then Some (n - 87)
      else if 65 \<le> n \<and> n \<le> 70 then Some (n - 55)
      else None)"

definition unescape :: "char \<Rightarrow> char option" where
  "unescape e =
     (if e = CHR 0x5C then Some (CHR 0x5C)
      else if e = CHR 0x22 then Some (CHR 0x22)
      else if e = CHR ''/'' then Some (CHR ''/'')
      else if e = CHR ''b'' then Some (CHR 0x08)
      else if e = CHR ''f'' then Some (CHR 0x0C)
      else if e = CHR ''n'' then Some (CHR 0x0A)
      else if e = CHR ''r'' then Some (CHR 0x0D)
      else if e = CHR ''t'' then Some (CHR 0x09)
      else None)"

definition cons_fst :: "char \<Rightarrow> (string \<times> string) option \<Rightarrow> (string \<times> string) option" where
  "cons_fst c r = (case r of None \<Rightarrow> None | Some (s, rest) \<Rightarrow> Some (c # s, rest))"

fun read_chars :: "string \<Rightarrow> (string \<times> string) option" where
  "read_chars [] = None"
| "read_chars (c # cs) =
     (if c = CHR 0x22 then Some ([], cs)
      else if c \<noteq> CHR 0x5C then cons_fst c (read_chars cs)
      else (case cs of
              [] \<Rightarrow> None
            | e # r \<Rightarrow>
                if e \<noteq> CHR ''u''
                then (case unescape e of None \<Rightarrow> None | Some x \<Rightarrow> cons_fst x (read_chars r))
                else (case r of
                        a # b # c' # d # r' \<Rightarrow>
                          (case (hex_val a, hex_val b, hex_val c', hex_val d) of
                             (Some 0, Some 0, Some h, Some l) \<Rightarrow>
                               cons_fst (char_of (16 * h + l)) (read_chars r')
                           | _ \<Rightarrow> None)
                      | _ \<Rightarrow> None)))"

definition read_string :: "string \<Rightarrow> (string \<times> string) option" where
  "read_string s = (case s of [] \<Rightarrow> None | c # cs \<Rightarrow> if c = CHR 0x22 then read_chars cs else None)"

definition read_time :: "string \<Rightarrow> (Time \<times> string) option" where
  "read_time s =
     (case read_lit (''{'' @ json_string ''hour'' @ '': '') s of None \<Rightarrow> None | Some s1 \<Rightarrow>
     (case read_int s1 of None \<Rightarrow> None | Some (h, s2) \<Rightarrow>
     (case read_lit ('', '' @ json_string ''minute'' @ '': '') s2 of None \<Rightarrow> None | Some s3 \<Rightarrow>
     (case read_int s3 of None \<Rightarrow> None | Some (m, s4) \<Rightarrow>
     (case read_lit ''}'' s4 of None \<Rightarrow> None | Some s5 \<Rightarrow>
        Some (\<lparr>hour = h, minute = m\<rparr>, s5))))))"

definition read_time_span :: "string \<Rightarrow> (TimeSpan \<times> string) option" where
  "read_time_span s =
     (case read_lit (''{'' @ json_string ''start'' @ '': '') s of None \<Rightarrow> None | Some s1 \<Rightarrow>
     (case read_time s1 of None \<Rightarrow> None | Some (a, s2) \<Rightarrow>
     (case read_lit ('', '' @ json_string ''end'' @ '': '') s2 of None \<Rightarrow> None | Some s3 \<Rightarrow>
     (case read_time s3 of None \<Rightarrow> None | Some (b, s4) \<Rightarrow>
     (case read_lit ''}'' s4 of None \<Rightarrow> None | Some s5 \<Rightarrow>
        Some (\<lparr>span_start = a, span_end = b\<rparr>, s5))))))"

definition read_item :: "string \<Rightarrow> ((string \<times> TimeSpan) \<times> string) option" where
  "read_item s =
     (case read_string s of None \<Rightarrow> None | Some (k, s1) \<Rightarrow>
     (case read_lit '': '' s1 of None \<Rightarrow> None | Some s2 \<Rightarrow>
     (case read_time_span s2 of None \<Rightarrow> None | Some (sp, s3) \<Rightarrow> Some ((k, sp), s3))))"

text \<open>
  The items of an object after the first: each is announced by \<open>", "\<close>, and \<open>}\<close> ends the
  object. The fuel bounds the number of items; the length of the input is always enough.
\<close>

fun read_more_items :: "nat \<Rightarrow> string \<Rightarrow> (times_dict \<times> string) option" where
  "read_more_items 0 s = None"
| "read_more_items (Suc n) s =
     (case read_lit ''}'' s of
        Some rest \<Rightarrow> Some ([], rest)
      | None \<Rightarrow>
         (case read_lit '', '' s of None \<Rightarrow> None | Some s1 \<Rightarrow>
         (case read_item s1 of None \<Rightarrow> None | Some (kv, s2) \<Rightarrow>
         (case read_more_items n s2 of None \<Rightarrow> None | Some (kvs, rest) \<Rightarrow> Some (kv # kvs, rest)))))"

definition times_from_json :: "string \<Rightarrow> times_dict option" where
  "times_from_json s =
     (case read_lit ''{'' s of
        None \<Rightarrow> None
      | Some s1 \<Rightarrow>
         (case read_lit ''}'' s1 of
            Some rest \<Rightarrow> if rest = [] then Some [] else None
          | None \<Rightarrow>
             (case read_item s1 of None \<Rightarrow> None | Some (kv, s2) \<Rightarrow>
             (case read_more_items (Suc (length s2)) s2 of
                None \<Rightarrow> None
              | Some (kvs, rest) \<Rightarrow> if rest = [] then Some (kv # kvs) else None))))"

section \<open>The parsed document\<close>

text \<open>
  A document parsed by BeautifulSoup is a tree of tags and strings. A \<open>Tag\<close> has its name,
  its attributes (a dictionary: an association list with distinct keys) and its children;
  the document itself is a tag. \<open>descendants\<close> lists
  the nodes below a node in document order, which is the order \<open>find\<close> and \<open>find_all\<close>
  search in. \<open>find\<close> gives \<open>None\<close> when nothing matches.
\<close>

datatype node =
    Tag string "(string \<times> string) list" "node list"
  | NavigableString string

fun descendants :: "node \<Rightarrow> node list" where
  "descendants (Tag n a cs) = concat (map (\<lambda>c. c # descendants c) cs)"
| "descendants (NavigableString s) = []"

fun has_name :: "string \<Rightarrow> node \<Rightarrow> bool" where
  "has_name n (Tag n' a cs) = (n' = n)"
| "has_name n (NavigableString s) = False"

fun has_id :: "string \<Rightarrow> node \<Rightarrow> bool" where
  "has_id v (Tag n a cs) = (map_of a ''id'' = Some v)"
| "has_id v (NavigableString s) = False"

definition find_all :: "string \<Rightarrow> node \<Rightarrow> node list" where
  "find_all n nd = filter (has_name n) (descendants nd)"

definition find_tag :: "string \<Rightarrow> node \<Rightarrow> node option" where
  "find_tag n nd = (case find_all n nd of [] \<Rightarrow> None | x # _ \<Rightarrow> Some x)"

definition find_id :: "string \<Rightarrow> node \<Rightarrow> node option" where
  "find_id v nd = (case filter (has_id v) (descendants nd) of [] \<Rightarrow> None | x # _ \<Rightarrow> Some x)"

text \<open>The property \<open>.text\<close>: the strings below a node, concatenated.\<close>

fun get_text :: "node \<Rightarrow> string" where
  "get_text (Tag n a cs) = concat (map get_text cs)"
| "get_text (NavigableString s) = s"

text \<open>Sequencing of steps that can raise: the first exception ends the computation.\<close>

definition bind :: "error + 'a \<Rightarrow> ('a \<Rightarrow> error + 'b) \<Rightarrow> error + 'b" where
  "bind r f = (case r of Inl e \<Rightarrow> Inl e | Inr x \<Rightarrow> f x)"

text \<open>\<open>x.find(...)\<close> followed by an attribute access: on \<open>None\<close> it raises \<open>AttributeError\<close>.\<close>

definition found :: "node option \<Rightarrow> error + node" where
  "found r = (case r of None \<Rightarrow> Inl AttributeError | Some x \<Rightarrow> Inr x)"

text \<open>\<open>cells[k]\<close> raises \<open>IndexError\<close> when there are not more than \<open>k\<close> cells.\<close>

definition cell :: "node list \<Rightarrow> nat \<Rightarrow> error + node" where
  "cell cells k = (if k < length cells then Inr (cells ! k) else Inl IndexError)"

section \<open>parse_table\<close>

text \<open>\<open>s.split(', ')\<close>.\<close>

fun split_comma_space :: "string \<Rightarrow> string list" where
  "split_comma_space [] = [[]]"
| "split_comma_space [c] = [[c]]"
| "split_comma_space (c # d # cs) =
     (if c = CHR '','' \<and> d = CHR '' '' then [] # split_comma_space cs
      else (case split_comma_space (d # cs) of [] \<Rightarrow> [[c]] | w # ws \<Rightarrow> (c # w) # ws))"

text \<open>
  Lines 74 to 103, the body of the loop for one row. \<open>nfc\<close> stands for
  \<open>unicodedata.normalize('NFC', _)\<close>. The statements run in the order of the source, so
  the first one that raises decides the exception.
\<close>

definition parse_row ::
  "(string \<Rightarrow> string) \<Rightarrow> string \<Rightarrow> string \<Rightarrow> string \<Rightarrow> string \<Rightarrow> node \<Rightarrow> error + Course" where
  "parse_row nfc trm trm_code subj subj_code row =
     (let cells = find_all ''td'' row in
      bind (cell cells 0) (\<lambda>c0.
      bind (found (find_tag ''a'' c0)) (\<lambda>a.
      bind (cell cells 1) (\<lambda>c1.
      bind (cell cells 2) (\<lambda>c2.
      bind (cell cells 3) (\<lambda>c3.
      bind (cell cells 4) (\<lambda>c4.
      bind (cell cells 5) (\<lambda>c5.
      bind (cell cells 6) (\<lambda>c6.
      bind (parse_time (get_text c6)) (\<lambda>tm.
      bind (cell cells 7) (\<lambda>c7.
      bind (py_int (get_text c7)) (\<lambda>pe.
      bind (cell cells 8) (\<lambda>c8.
      bind (py_int (get_text c8)) (\<lambda>ce.
      bind (cell cells 9) (\<lambda>c9.
      bind (cell cells 10) (\<lambda>c10.
        Inr \<lparr>crn = get_text a,
             course_id = get_text c1,
             term_name = trm,
             term_code = trm_code,
             subject = subj,
             subject_code = subj_code,
             attributes = map nfc (split_comma_space (get_text c2)),
             title = get_text c3,
             instructor = get_text c4,
             credit_hours = get_text c5,
             time = tm,
             proj_enr = pe,
             curr_enr = ce,
             seats_avail = get_text c9,
             status = get_text c10\<rparr>))))))))))))))))"

fun parse_rows ::
  "(string \<Rightarrow> string) \<Rightarrow> string \<Rightarrow> string \<Rightarrow> string \<Rightarrow> string
     \<Rightarrow> Course list \<Rightarrow> node list \<Rightarrow> error + Course list" where
  "parse_rows nfc trm trm_code subj subj_code rows [] = Inr rows"
| "parse_rows nfc trm trm_code subj subj_code rows (row # rest) =
     bind (parse_row nfc trm trm_code subj subj_code row)
       (\<lambda>c. parse_rows nfc trm trm_code subj subj_code (rows @ [c]) rest)"

text \<open>Line 73: \<open>soup.find(id='results').find('table').find('tbody').find_all('tr')\<close>.\<close>

definition table_rows :: "node \<Rightarrow> error + node list" where
  "table_rows soup =
     bind (found (find_id ''results'' soup)) (\<lambda>results.
     bind (found (find_tag ''table'' results)) (\<lambda>table.
     bind (found (find_tag ''tbody'' table)) (\<lambda>tbody.
       Inr (find_all ''tr'' tbody))))"

definition parse_table ::
  "(string \<Rightarrow> string) \<Rightarrow> node \<Rightarrow> string \<Rightarrow> string \<Rightarrow> string \<Rightarrow> string \<Rightarrow> error + Course list" where
  "parse_table nfc soup trm trm_code subj subj_code =
     bind (table_rows soup) (parse_rows nfc trm trm_code subj subj_code [])"

text \<open>
  A row whose cell 7 or cell 8 is there and holds no integer, in the words of the
  specification ("not a valid integer").
\<close>

definition bad_enrollment :: "node \<Rightarrow> bool" where
  "bad_enrollment row =
     (let cells = find_all ''td'' row in
      (7 < length cells \<and> py_int (get_text (cells ! 7)) = Inl ValueError)
      \<or> (8 < length cells \<and> py_int (get_text (cells ! 8)) = Inl ValueError))"

section \<open>fetch\<close>

text \<open>The dictionaries \<open>{"name": ..., "code": ...}\<close> that \<open>parse_select\<close> builds.\<close>

record descriptor =
  name :: string
  code :: string

text \<open>
  Lines 118 to 129. Iterating a tag goes over its children. A tag never equals the string
  \<open>"\n"\<close>; \<open>el['value']\<close> raises \<open>KeyError\<close> on a tag without that attribute and
  \<open>TypeError\<close> on a string, which is indexed by integers only. \<open>soup.find\<close> may give
  \<open>None\<close>, and iterating \<open>None\<close> raises \<open>TypeError\<close>.
\<close>

fun parse_select_loop :: "descriptor list \<Rightarrow> node list \<Rightarrow> error + descriptor list" where
  "parse_select_loop out [] = Inr out"
| "parse_select_loop out (NavigableString s # els) =
     (if s \<noteq> [CHR 0x0A] then Inl TypeError else parse_select_loop out els)"
| "parse_select_loop out (Tag n a cs # els) =
     (case map_of a ''value'' of
        None \<Rightarrow> Inl KeyError
      | Some v \<Rightarrow>
          if v \<noteq> ''0''
          then parse_select_loop (out @ [\<lparr>name = get_text (Tag n a cs), code = v\<rparr>]) els
          else parse_select_loop out els)"

definition parse_select :: "node \<Rightarrow> string \<Rightarrow> error + descriptor list" where
  "parse_select soup ident =
     (case find_id ident soup of
        None \<Rightarrow> Inl TypeError
      | Some (NavigableString s) \<Rightarrow> Inl TypeError
      | Some (Tag n a cs) \<Rightarrow> parse_select_loop [] cs)"

text \<open>
  Lines 150 to 152: the pairs for which a task is submitted, in the order of submission.
\<close>

definition submitted_pairs :: "descriptor list \<Rightarrow> descriptor list \<Rightarrow> (descriptor \<times> descriptor) list" where
  "submitted_pairs terms subjects =
     concat (map (\<lambda>trm. map (\<lambda>subj. (trm, subj)) (take 10 subjects)) (take 1 terms))"

text \<open>
  A submitted task at the moment \<open>futures.wait(fs, timeout=60)\<close> returns: it is done,
  with the rows it returned or the exception it raised, or it is still pending. A
  pending task finishes later or never. \<open>f.result(timeout=1)\<close> gives the value of a task
  that is done or raises its exception, and raises \<open>TimeoutError\<close> on any other.
\<close>

datatype 'a future = Done "error + 'a" | Late | Never

fun is_done :: "'a future \<Rightarrow> bool" where
  "is_done (Done r) = True"
| "is_done Late = False"
| "is_done Never = False"

fun result :: "'a future \<Rightarrow> error + 'a" where
  "result (Done r) = r"
| "result Late = Inl TimeoutError"
| "result Never = Inl TimeoutError"

text \<open>Line 159: the list comprehension stops at the first \<open>result\<close> that raises.\<close>

fun results_of :: "'a future list \<Rightarrow> error + 'a list" where
  "results_of [] = Inr []"
| "results_of (f # fs) = bind (result f) (\<lambda>r. bind (results_of fs) (\<lambda>rs. Inr (r # rs)))"

text \<open>
  Lines 134 to 164. \<open>task trm subj\<close> is the state of the task for a pair when the wait
  ends; the request and the parsing happen inside it. \<open>finished\<close> is a set, and \<open>order\<close>
  gives the order in which line 159 goes through it, as positions in \<open>fs\<close>. Leaving the
  \<open>with\<close> block waits for every submitted task, so the exception of line 157 reaches the
  caller once the pending tasks have ended; the call gives \<open>None\<close> when it never returns.
\<close>

definition run_tasks ::
  "(descriptor \<Rightarrow> descriptor \<Rightarrow> Course list future) \<Rightarrow> (descriptor \<times> descriptor) list
     \<Rightarrow> nat list \<Rightarrow> (error + Course list) option" where
  "run_tasks task pairs order =
     (let fs = map (\<lambda>(trm, subj). task trm subj) pairs;
          finished = map (\<lambda>i. fs ! i) (filter (\<lambda>i. i < length fs \<and> is_done (fs ! i)) order);
          pending = filter (\<lambda>f. \<not> is_done f) fs
      in if pending \<noteq> []
         then (if Never \<in> set pending then None
               else Some (Inl (Exception ''some jobs did not complete successfully'')))
         else Some (bind (results_of finished) (\<lambda>result_sets. Inr (concat result_sets))))"

text \<open>
  \<open>fetch\<close>, given the parsed landing page. Lines 131 and 132 run before any task is
  submitted.
\<close>

definition fetch ::
  "node \<Rightarrow> (descriptor \<Rightarrow> descriptor \<Rightarrow> Course list future) \<Rightarrow> nat list
     \<Rightarrow> (error + Course list) option" where
  "fetch soup task order =
     (case parse_select soup ''term_code'' of
        Inl e \<Rightarrow> Some (Inl e)
      | Inr terms \<Rightarrow>
          (case parse_select soup ''term_subj'' of
             Inl e \<Rightarrow> Some (Inl e)
           | Inr subjects \<Rightarrow> run_tasks task (submitted_pairs terms subjects) order))"

text \<open>
  What a child of the selection list contributes to the result of \<open>parse_select\<close>: a tag
  with a \<open>value\<close> other than \<open>"0"\<close> gives a descriptor. The children \<open>parse_select\<close> gets
  past are the tags with a \<open>value\<close> and the strings equal to \<open>"\n"\<close>.
\<close>

fun select_entry :: "node \<Rightarrow> descriptor option" where
  "select_entry (Tag n a cs) =
     (case map_of a ''value'' of
        None \<Rightarrow> None
      | Some v \<Rightarrow> if v = ''0'' then None else Some \<lparr>name = get_text (Tag n a cs), code = v\<rparr>)"
| "select_entry (NavigableString s) = None"

fun accepted_child :: "node \<Rightarrow> bool" where
  "accepted_child (Tag n a cs) = (map_of a ''value'' \<noteq> None)"
| "accepted_child (NavigableString s) = (s = [CHR 0x0A])"

text \<open>The rows a task contributes: those it returned when it is done without an exception.\<close>

fun rows_of :: "'a list future \<Rightarrow> 'a list" where
  "rows_of (Done (Inr rows)) = rows"
| "rows_of (Done (Inl e)) = []"
| "rows_of Late = []"
| "rows_of Never = []"

fun succeeded :: "'a future \<Rightarrow> bool" where
  "succeeded (Done (Inr rows)) = True"
| "succeeded (Done (Inl e)) = False"
| "succeeded Late = False"
| "succeeded Never = False"

section \<open>Example documents\<close>

text \<open>
  A results page in the form \<open>parse_table\<close> reads, with the row of the end-to-end
  scenario of the specification (CRN 12345), and a landing page with two terms and one
  subject. The arguments of \<open>example_row\<close> are the texts of cells 7 and 8.
\<close>

definition example_cell :: "string \<Rightarrow> node" where
  "example_cell s = Tag ''td'' [] [NavigableString s]"

definition example_row :: "string \<Rightarrow> string \<Rightarrow> node" where
  "example_row pe ce =
     Tag ''tr'' []
       [Tag ''td'' [] [Tag ''a'' [(''href'', ''#'')] [NavigableString ''12345'']],
        example_cell ''CSCI 141'', example_cell ''C100, NQR'', example_cell ''Computational Problem Solving'',
        example_cell ''Smith'', example_cell ''4'', example_cell ''MWF:0900-0950'',
        example_cell pe, example_cell ce, example_cell ''2'', example_cell ''OPEN'']"

definition example_results :: "node list \<Rightarrow> node" where
  "example_results rows =
     Tag ''[document]'' []
       [Tag ''div'' [(''id'', ''results'')] [Tag ''table'' [] [Tag ''tbody'' [] rows]]]"

definition example_option :: "string \<Rightarrow> string \<Rightarrow> node" where
  "example_option v s = Tag ''option'' [(''value'', v)] [NavigableString s]"

definition example_landing :: "node list \<Rightarrow> node" where
  "example_landing term_options =
     Tag ''[document]'' []
       [Tag ''select'' [(''id'', ''term_code'')] term_options,
        Tag ''select'' [(''id'', ''term_subj'')]
          [example_option ''0'' ''ALL'', NavigableString [CHR 0x0A],
           example_option ''CSCI'' ''Computer Science'']]"


definition example_task :: "descriptor \<Rightarrow> descriptor \<Rightarrow> Course list future" where
  "example_task trm subj = (if code trm = ''20233'' then Done (Inr []) else Done (Inl ValueError))"

section \<open>Properties of parse_time\<close>

lemma is_digit_not_space: "is_digit c \<Longrightarrow> \<not> is_int_space c"
  by (auto simp: is_digit_def is_int_space_def)

lemma is_digit_not_sign: "is_digit c \<Longrightarrow> c \<noteq> CHR ''-'' \<and> c \<noteq> CHR ''+'' \<and> c \<noteq> CHR ''_''"
  by (auto simp: is_digit_def)

lemma digit_val_range: "is_digit c \<Longrightarrow> 0 \<le> digit_val c \<and> digit_val c \<le> 9"
  by (auto simp: is_digit_def digit_val_def)

lemma py_int_two_digits:
  assumes "is_digit a" "is_digit b"
  shows "py_int [a, b] = Inr (10 * digit_val a + digit_val b)"
proof -
  have "int_strip [a, b] = [a, b]"
    using assms by (simp add: int_strip_def is_digit_not_space)
  then show ?thesis
    using assms by (simp add: py_int_def digits_value_def is_digit_not_sign)
qed

lemma split_space_not_Nil: "split_space s \<noteq> []"
  by (induction s) (auto split: list.splits)

lemma split_space_no_space: "CHR '' '' \<notin> set t \<Longrightarrow> split_space t = [t]"
  by (induction t) auto

lemma split_space_append:
  "split_space (a @ CHR '' '' # b) = split_space a @ split_space b"
  by (induction a) (auto split: list.splits simp: split_space_not_Nil)

lemma time_tokens_append:
  "time_tokens (a @ CHR '' '' # b) = time_tokens a @ time_tokens b"
  by (simp add: time_tokens_def split_space_append)

lemma time_tokens_token: "CHR '' '' \<notin> set t \<Longrightarrow> time_tokens t = (if t = [] then [] else [t])"
  by (simp add: time_tokens_def split_space_no_space)


lemma not_upper_colon: "\<not> is_upper CHR '':''"
  by (simp add: is_upper_def)

lemma re_match_time_SomeD:
  assumes "re_match_time t = Some m"
  obtains h1 h2 m1 m2 h3 h4 m3 m4 rest where
    "t = days m @ CHR '':'' # h1 # h2 # m1 # m2 # CHR ''-'' # h3 # h4 # m3 # m4 # rest"
    "days m \<noteq> []" "\<forall>c\<in>set (days m). is_upper c"
    "is_digit h1" "is_digit h2" "is_digit m1" "is_digit m2"
    "is_digit h3" "is_digit h4" "is_digit m3" "is_digit m4"
    "m = \<lparr>days = days m, start_hour = [h1, h2], start_minute = [m1, m2],
          end_hour = [h3, h4], end_minute = [m3, m4]\<rparr>"
proof -
  let ?ds = "takeWhile is_upper t"
  from assms have ne: "?ds \<noteq> []"
    by (auto simp: re_match_time_def Let_def split: if_splits)
  from assms obtain c h1 h2 m1 m2 d h3 h4 m3 m4 rest where
    dw: "dropWhile is_upper t = c # h1 # h2 # m1 # m2 # d # h3 # h4 # m3 # m4 # rest"
    by (auto simp: re_match_time_def Let_def split: if_splits list.splits)
  from assms ne dw have
    cond: "c = CHR '':''" "is_digit h1" "is_digit h2" "is_digit m1" "is_digit m2"
      "d = CHR ''-''" "is_digit h3" "is_digit h4" "is_digit m3" "is_digit m4"
    and m: "m = \<lparr>days = ?ds, start_hour = [h1, h2], start_minute = [m1, m2],
          end_hour = [h3, h4], end_minute = [m3, m4]\<rparr>"
    by (auto simp: re_match_time_def Let_def split: if_splits)
  have dm: "days m = ?ds" using m by simp
  have "t = ?ds @ dropWhile is_upper t" by simp
  then have "t = days m @ CHR '':'' # h1 # h2 # m1 # m2 # CHR ''-'' # h3 # h4 # m3 # m4 # rest"
    using dw cond dm by simp
  moreover have "\<forall>c\<in>set (days m). is_upper c"
    unfolding dm by (auto dest: set_takeWhileD)
  ultimately show thesis
    using that ne cond m dm by metis
qed

lemma re_match_time_SomeI:
  assumes "ds \<noteq> []" "\<forall>c\<in>set ds. is_upper c"
    "is_digit h1" "is_digit h2" "is_digit m1" "is_digit m2"
    "is_digit h3" "is_digit h4" "is_digit m3" "is_digit m4"
  shows "re_match_time (ds @ CHR '':'' # h1 # h2 # m1 # m2 # CHR ''-'' # h3 # h4 # m3 # m4 # rest)
     = Some \<lparr>days = ds, start_hour = [h1, h2], start_minute = [m1, m2],
          end_hour = [h3, h4], end_minute = [m3, m4]\<rparr>"
proof -
  let ?tl = "CHR '':'' # h1 # h2 # m1 # m2 # CHR ''-'' # h3 # h4 # m3 # m4 # rest"
  have tw: "takeWhile is_upper (ds @ ?tl) = ds"
    using assms(2) by (simp add: takeWhile_append2 not_upper_colon)
  have dw: "dropWhile is_upper (ds @ ?tl) = ?tl"
    using assms(2) by (simp add: dropWhile_append2 not_upper_colon)
  show ?thesis
    unfolding re_match_time_def tw dw using assms by simp
qed

lemma re_match_time_prefix:
  assumes "re_match_time p = Some m"
  shows "re_match_time (p @ x) = Some m"
proof -
  from assms obtain h1 h2 m1 m2 h3 h4 m3 m4 rest where
    p: "p = days m @ CHR '':'' # h1 # h2 # m1 # m2 # CHR ''-'' # h3 # h4 # m3 # m4 # rest"
    and ds: "days m \<noteq> []" "\<forall>c\<in>set (days m). is_upper c"
    and dg: "is_digit h1" "is_digit h2" "is_digit m1" "is_digit m2"
    "is_digit h3" "is_digit h4" "is_digit m3" "is_digit m4"
    and m: "m = \<lparr>days = days m, start_hour = [h1, h2], start_minute = [m1, m2],
          end_hour = [h3, h4], end_minute = [m3, m4]\<rparr>"
    by (rule re_match_time_SomeD)
  have "p @ x = days m @ CHR '':'' # h1 # h2 # m1 # m2 # CHR ''-'' # h3 # h4 # m3 # m4 # (rest @ x)"
    by (subst p) simp
  then have "re_match_time (p @ x) = Some \<lparr>days = days m, start_hour = [h1, h2], start_minute = [m1, m2],
          end_hour = [h3, h4], end_minute = [m3, m4]\<rparr>"
    using re_match_time_SomeI [OF ds dg] by simp
  with m show ?thesis by simp
qed

lemma time_span_of_match:
  assumes "re_match_time t = Some m"
  shows "time_span_of m =
    Inr \<lparr>span_start = \<lparr>hour = digits_value (start_hour m), minute = digits_value (start_minute m)\<rparr>,
         span_end = \<lparr>hour = digits_value (end_hour m), minute = digits_value (end_minute m)\<rparr>\<rparr>"
proof -
  from assms obtain h1 h2 m1 m2 h3 h4 m3 m4 rest where
    dg: "is_digit h1" "is_digit h2" "is_digit m1" "is_digit m2"
    "is_digit h3" "is_digit h4" "is_digit m3" "is_digit m4"
    and m: "m = \<lparr>days = days m, start_hour = [h1, h2], start_minute = [m1, m2],
          end_hour = [h3, h4], end_minute = [m3, m4]\<rparr>"
    by (rule re_match_time_SomeD)
  have f: "start_hour m = [h1, h2]" "start_minute m = [m1, m2]" "end_hour m = [h3, h4]" "end_minute m = [m3, m4]"
    by (subst m, simp)+
  show ?thesis
    unfolding time_span_of_def f using dg
    by (simp add: py_int_two_digits digits_value_def)
qed

lemma map_of_update_days:
  "map_of (update_days ds sp tms) k = (if k \<in> (\<lambda>d. [d]) ` set ds then Some sp else map_of tms k)"
  unfolding update_days_def
  by (induction ds arbitrary: tms) (auto simp: update_conv')

lemma set_update_subset: "set (AList.update k v al) \<subseteq> insert (k, v) (set al)"
  by (induction al) auto

lemma set_update_days: "set (update_days ds sp tms) \<subseteq> (\<lambda>d. ([d], sp)) ` set ds \<union> set tms"
  unfolding update_days_def
proof (induction ds arbitrary: tms)
  case Nil
  show ?case by simp
next
  case (Cons d ds)
  have "set (fold (\<lambda>day. AList.update [day] sp) ds (AList.update [d] sp tms))
      \<subseteq> (\<lambda>d. ([d], sp)) ` set ds \<union> set (AList.update [d] sp tms)"
    by (rule Cons.IH)
  also have "\<dots> \<subseteq> (\<lambda>d. ([d], sp)) ` set (d # ds) \<union> set tms"
    using set_update_subset [of "[d]" sp tms] by auto
  finally show ?case by simp
qed

lemma parse_time_loop_append:
  "parse_time_loop tms (xs @ ys) =
     (case parse_time_loop tms xs of Inl e \<Rightarrow> Inl e | Inr tms' \<Rightarrow> parse_time_loop tms' ys)"
  by (induction xs arbitrary: tms) (auto split: option.splits sum.splits)

lemma parse_time_loop_total: "\<exists>r. parse_time_loop tms ts = Inr r"
  by (induction ts arbitrary: tms) (auto split: option.splits sum.splits simp: time_span_of_match)

lemma parse_time_total: "\<exists>r. parse_time s = Inr r"
  by (simp add: parse_time_def parse_time_loop_total)

lemma parse_time_loop_later:
  assumes "\<forall>t\<in>set post. \<forall>m. re_match_time t = Some m \<longrightarrow> d \<notin> set (days m)"
    and "parse_time_loop tms post = Inr r"
  shows "map_of r [d] = map_of tms [d]"
  using assms
proof (induction post arbitrary: tms)
  case Nil
  then show ?case by simp
next
  case (Cons t post)
  show ?case
  proof (cases "re_match_time t")
    case None
    with Cons show ?thesis by simp
  next
    case (Some m)
    with Cons.prems(1) have d: "d \<notin> set (days m)" by simp
    from Some Cons.prems(2) obtain sp where
      sp: "time_span_of m = Inr sp" and
      r: "parse_time_loop (update_days (days m) sp tms) post = Inr r"
      by (auto split: sum.splits)
    from Cons.prems(1) have "\<forall>t\<in>set post. \<forall>m. re_match_time t = Some m \<longrightarrow> d \<notin> set (days m)"
      by simp
    from Cons.IH [OF this r] have "map_of r [d] = map_of (update_days (days m) sp tms) [d]" .
    also have "\<dots> = map_of tms [d]"
      using d by (auto simp: map_of_update_days)
    finally show ?thesis .
  qed
qed

lemma time_tokens_mid:
  "CHR '' '' \<notin> set t \<Longrightarrow>
   time_tokens (s1 @ CHR '' '' # t @ CHR '' '' # s2)
     = time_tokens s1 @ time_tokens t @ time_tokens s2"
  by (simp add: time_tokens_append)

lemma parse_time_loop_same_match:
  assumes "re_match_time a = re_match_time b"
  shows "parse_time_loop tms (pre @ a # post) = parse_time_loop tms (pre @ b # post)"
  using assms by (simp add: parse_time_loop_append split: sum.splits)

lemma digits_value_two: "is_digit a \<Longrightarrow> is_digit b \<Longrightarrow> 0 \<le> digits_value [a, b] \<and> digits_value [a, b] \<le> 99"
  using digit_val_range [of a] digit_val_range [of b]
  by (simp add: digits_value_def)

lemma time_span_of_bounds:
  assumes "re_match_time t = Some m" and "time_span_of m = Inr sp"
  shows "two_digit_time (span_start sp) \<and> two_digit_time (span_end sp)"
proof -
  from assms(1) obtain h1 h2 m1 m2 h3 h4 m3 m4 rest where
    dg: "is_digit h1" "is_digit h2" "is_digit m1" "is_digit m2"
    "is_digit h3" "is_digit h4" "is_digit m3" "is_digit m4"
    and m: "m = \<lparr>days = days m, start_hour = [h1, h2], start_minute = [m1, m2],
          end_hour = [h3, h4], end_minute = [m3, m4]\<rparr>"
    by (rule re_match_time_SomeD)
  have f: "start_hour m = [h1, h2]" "start_minute m = [m1, m2]"
    "end_hour m = [h3, h4]" "end_minute m = [m3, m4]"
    by (subst m, simp)+
  from assms have "sp = \<lparr>span_start = \<lparr>hour = digits_value [h1, h2], minute = digits_value [m1, m2]\<rparr>,
         span_end = \<lparr>hour = digits_value [h3, h4], minute = digits_value [m3, m4]\<rparr>\<rparr>"
    by (simp add: time_span_of_match f)
  then show ?thesis
    using digits_value_two [OF dg(1,2)] digits_value_two [OF dg(3,4)]
      digits_value_two [OF dg(5,6)] digits_value_two [OF dg(7,8)]
    by (simp add: two_digit_time_def)
qed

lemma parse_time_loop_bounds:
  assumes "\<forall>(k, sp)\<in>set tms. two_digit_time (span_start sp) \<and> two_digit_time (span_end sp)"
    and "parse_time_loop tms ts = Inr r"
  shows "\<forall>(k, sp)\<in>set r. two_digit_time (span_start sp) \<and> two_digit_time (span_end sp)"
  using assms
proof (induction ts arbitrary: tms)
  case Nil
  then show ?case by simp
next
  case (Cons t ts)
  show ?case
  proof (cases "re_match_time t")
    case None
    with Cons show ?thesis by simp
  next
    case (Some m)
    with Cons.prems(2) obtain sp where
      sp: "time_span_of m = Inr sp" and
      r: "parse_time_loop (update_days (days m) sp tms) ts = Inr r"
      by (auto split: sum.splits)
    have "\<forall>(k, sp')\<in>set (update_days (days m) sp tms).
            two_digit_time (span_start sp') \<and> two_digit_time (span_end sp')"
      using set_update_days [of "days m" sp tms] time_span_of_bounds [OF Some sp] Cons.prems(1)
      by auto
    from Cons.IH [OF this r] show ?thesis .
  qed
qed

lemma parse_time_one_match:
  assumes "CHR '' '' \<notin> set t" and "re_match_time t = Some m"
  shows "parse_time t =
    Inr (update_days (days m)
          \<lparr>span_start = \<lparr>hour = digits_value (start_hour m), minute = digits_value (start_minute m)\<rparr>,
           span_end = \<lparr>hour = digits_value (end_hour m), minute = digits_value (end_minute m)\<rparr>\<rparr> [])"
proof -
  from assms(2) have "t \<noteq> []" by (auto simp: re_match_time_def)
  then have "time_tokens t = [t]" using assms(1) by (simp add: time_tokens_token)
  then show ?thesis
    using assms(2) by (simp add: parse_time_def time_span_of_match)
qed

lemma parse_time_after_match:
  assumes "CHR '' '' \<notin> set t" and "re_match_time t = Some m"
  shows "\<exists>tms0. parse_time s1 = Inr tms0
    \<and> parse_time (s1 @ CHR '' '' # t) =
        Inr (update_days (days m)
          \<lparr>span_start = \<lparr>hour = digits_value (start_hour m), minute = digits_value (start_minute m)\<rparr>,
           span_end = \<lparr>hour = digits_value (end_hour m), minute = digits_value (end_minute m)\<rparr>\<rparr> tms0)"
proof -
  from assms(2) have "t \<noteq> []" by (auto simp: re_match_time_def)
  then have tt: "time_tokens t = [t]" using assms(1) by (simp add: time_tokens_token)
  obtain tms0 where tms0: "parse_time s1 = Inr tms0"
    using parse_time_total by blast
  then have "parse_time_loop [] (time_tokens s1) = Inr tms0" by (simp add: parse_time_def)
  then have "parse_time (s1 @ CHR '' '' # t) =
        Inr (update_days (days m)
          \<lparr>span_start = \<lparr>hour = digits_value (start_hour m), minute = digits_value (start_minute m)\<rparr>,
           span_end = \<lparr>hour = digits_value (end_hour m), minute = digits_value (end_minute m)\<rparr>\<rparr> tms0)"
    using assms(2)
    by (simp add: parse_time_def time_tokens_append tt parse_time_loop_append time_span_of_match)
  with tms0 show ?thesis by blast
qed

lemma re_match_time_groups:
  assumes "re_match_time t = Some m"
  shows "(\<exists>rest. t = days m @ '':'' @ start_hour m @ start_minute m @ ''-''
                     @ end_hour m @ end_minute m @ rest)
       \<and> days m \<noteq> [] \<and> length (start_hour m) = 2 \<and> length (start_minute m) = 2
       \<and> length (end_hour m) = 2 \<and> length (end_minute m) = 2"
proof -
  from assms obtain h1 h2 m1 m2 h3 h4 m3 m4 rest where
    t: "t = days m @ CHR '':'' # h1 # h2 # m1 # m2 # CHR ''-'' # h3 # h4 # m3 # m4 # rest"
    and ne: "days m \<noteq> []"
    and m: "m = \<lparr>days = days m, start_hour = [h1, h2], start_minute = [m1, m2],
          end_hour = [h3, h4], end_minute = [m3, m4]\<rparr>"
    by (rule re_match_time_SomeD)
  have f: "start_hour m = [h1, h2]" "start_minute m = [m1, m2]"
    "end_hour m = [h3, h4]" "end_minute m = [m3, m4]"
    by (subst m, simp)+
  have "t = days m @ '':'' @ start_hour m @ start_minute m @ ''-''
                          @ end_hour m @ end_minute m @ rest"
    unfolding f using t by simp
  then show ?thesis using ne f by auto
qed

section \<open>Claims about parse_time\<close>

text \<open>
  Claim C4. A token without a match is skipped: the schedule with the token parses to the
  same result as the schedule without it. A matching token consists of its groups (and
  whatever follows them), and once it is processed every one of its day letters is mapped
  to the \<open>TimeSpan\<close> of its four two-digit numbers, the other days staying as they were.
\<close>

theorem parse_time_tokens:
  assumes "CHR '' '' \<notin> set t"
  shows "(re_match_time t = None \<longrightarrow>
            parse_time (s1 @ '' '' @ t @ '' '' @ s2) = parse_time (s1 @ '' '' @ s2))
       \<and> (\<forall>m. re_match_time t = Some m \<longrightarrow>
            (\<exists>rest. t = days m @ '':'' @ start_hour m @ start_minute m @ ''-''
                          @ end_hour m @ end_minute m @ rest)
          \<and> (\<exists>tms0 tms. parse_time s1 = Inr tms0
               \<and> parse_time (s1 @ '' '' @ t) = Inr tms
               \<and> (\<forall>k. map_of tms k =
                     (if k \<in> (\<lambda>d. [d]) ` set (days m)
                      then Some \<lparr>span_start = \<lparr>hour = digits_value (start_hour m),
                                                minute = digits_value (start_minute m)\<rparr>,
                                 span_end = \<lparr>hour = digits_value (end_hour m),
                                              minute = digits_value (end_minute m)\<rparr>\<rparr>
                      else map_of tms0 k))))"
proof (intro conjI impI allI)
  assume none: "re_match_time t = None"
  have "time_tokens s1 @ time_tokens t @ time_tokens s2 = time_tokens s1 @ time_tokens s2
      \<or> time_tokens s1 @ time_tokens t @ time_tokens s2 = time_tokens s1 @ t # time_tokens s2"
    using assms by (simp add: time_tokens_token)
  then have "parse_time_loop [] (time_tokens s1 @ time_tokens t @ time_tokens s2)
      = parse_time_loop [] (time_tokens s1 @ time_tokens s2)"
    using none by (auto simp: parse_time_loop_append split: sum.splits)
  then show "parse_time (s1 @ '' '' @ t @ '' '' @ s2) = parse_time (s1 @ '' '' @ s2)"
    using assms time_tokens_append [of s1 s2]
    by (simp add: parse_time_def time_tokens_mid)
next
  fix m assume some: "re_match_time t = Some m"
  from some obtain h1 h2 m1 m2 h3 h4 m3 m4 rest where
    t: "t = days m @ CHR '':'' # h1 # h2 # m1 # m2 # CHR ''-'' # h3 # h4 # m3 # m4 # rest"
    and m: "m = \<lparr>days = days m, start_hour = [h1, h2], start_minute = [m1, m2],
          end_hour = [h3, h4], end_minute = [m3, m4]\<rparr>"
    by (rule re_match_time_SomeD)
  have f: "start_hour m = [h1, h2]" "start_minute m = [m1, m2]"
    "end_hour m = [h3, h4]" "end_minute m = [m3, m4]"
    by (subst m, simp)+
  have "t = days m @ '':'' @ start_hour m @ start_minute m @ ''-''
                          @ end_hour m @ end_minute m @ rest"
    unfolding f using t by simp
  then show "\<exists>rest. t = days m @ '':'' @ start_hour m @ start_minute m @ ''-''
                          @ end_hour m @ end_minute m @ rest" ..
next
  fix m assume some: "re_match_time t = Some m"
  let ?sp = "\<lparr>span_start = \<lparr>hour = digits_value (start_hour m),
                                                minute = digits_value (start_minute m)\<rparr>,
                                 span_end = \<lparr>hour = digits_value (end_hour m),
                                              minute = digits_value (end_minute m)\<rparr>\<rparr>"
  from some have tne: "t \<noteq> []" by (auto simp: re_match_time_def)
  obtain tms0 where tms0: "parse_time s1 = Inr tms0"
    using parse_time_total by blast
  have "parse_time (s1 @ '' '' @ t) = parse_time_loop [] (time_tokens s1 @ [t])"
    using assms tne by (simp add: parse_time_def time_tokens_append time_tokens_token)
  also have "\<dots> = Inr (update_days (days m) ?sp tms0)"
    using tms0 some by (simp add: parse_time_loop_append parse_time_def time_span_of_match)
  finally have "parse_time (s1 @ '' '' @ t) = Inr (update_days (days m) ?sp tms0)" .
  with tms0 show "\<exists>tms0 tms. parse_time s1 = Inr tms0
               \<and> parse_time (s1 @ '' '' @ t) = Inr tms
               \<and> (\<forall>k. map_of tms k =
                     (if k \<in> (\<lambda>d. [d]) ` set (days m) then Some ?sp else map_of tms0 k))"
    by (auto simp: map_of_update_days)
qed

text \<open>The examples of the specification: \<open>"TBA"\<close> and \<open>"MWF:0900-0950"\<close>.\<close>

theorem parse_time_tokens_witness:
  "CHR '' '' \<notin> set ''TBA'' \<and> re_match_time ''TBA'' = None
   \<and> parse_time ''MWF:0900-0950 TBA '' = parse_time ''MWF:0900-0950 ''
   \<and> parse_time ''TBA'' = Inr []
   \<and> parse_time ''MWF:0900-0950'' =
       Inr [(''M'', \<lparr>span_start = \<lparr>hour = 9, minute = 0\<rparr>, span_end = \<lparr>hour = 9, minute = 50\<rparr>\<rparr>),
            (''W'', \<lparr>span_start = \<lparr>hour = 9, minute = 0\<rparr>, span_end = \<lparr>hour = 9, minute = 50\<rparr>\<rparr>),
            (''F'', \<lparr>span_start = \<lparr>hour = 9, minute = 0\<rparr>, span_end = \<lparr>hour = 9, minute = 50\<rparr>\<rparr>)]"
proof -
  have h: "CHR '' '' \<notin> set ''TBA''" by simp
  have n: "re_match_time ''TBA'' = None" by code_simp
  have "parse_time ''MWF:0900-0950 TBA '' = parse_time ''MWF:0900-0950 ''"
    using parse_time_tokens [OF h, of "''MWF:0900-0950''" "[]"] n by simp
  moreover have "parse_time ''TBA'' = Inr []" by code_simp
  moreover have "parse_time ''MWF:0900-0950'' =
       Inr [(''M'', \<lparr>span_start = \<lparr>hour = 9, minute = 0\<rparr>, span_end = \<lparr>hour = 9, minute = 50\<rparr>\<rparr>),
            (''W'', \<lparr>span_start = \<lparr>hour = 9, minute = 0\<rparr>, span_end = \<lparr>hour = 9, minute = 50\<rparr>\<rparr>),
            (''F'', \<lparr>span_start = \<lparr>hour = 9, minute = 0\<rparr>, span_end = \<lparr>hour = 9, minute = 50\<rparr>\<rparr>)]"
    by code_simp
  ultimately show ?thesis using h n by blast
qed

text \<open>
  Claim C5. When a day letter occurs in several matching tokens, the mapping holds the
  \<open>TimeSpan\<close> of the last of them: no later matching token names the day.
\<close>

theorem parse_time_last_write_wins:
  assumes "time_tokens s = pre @ t # post"
    and "re_match_time t = Some m"
    and "d \<in> set (days m)"
    and "\<forall>t'\<in>set post. \<forall>m'. re_match_time t' = Some m' \<longrightarrow> d \<notin> set (days m')"
  shows "\<exists>tms. parse_time s = Inr tms
           \<and> map_of tms [d] =
               Some \<lparr>span_start = \<lparr>hour = digits_value (start_hour m),
                                    minute = digits_value (start_minute m)\<rparr>,
                     span_end = \<lparr>hour = digits_value (end_hour m),
                                  minute = digits_value (end_minute m)\<rparr>\<rparr>"
proof -
  let ?sp = "\<lparr>span_start = \<lparr>hour = digits_value (start_hour m),
                                    minute = digits_value (start_minute m)\<rparr>,
                     span_end = \<lparr>hour = digits_value (end_hour m),
                                  minute = digits_value (end_minute m)\<rparr>\<rparr>"
  obtain tms0 where tms0: "parse_time_loop [] pre = Inr tms0"
    using parse_time_loop_total by blast
  obtain tms where tms: "parse_time_loop (update_days (days m) ?sp tms0) post = Inr tms"
    using parse_time_loop_total by blast
  have "parse_time s = Inr tms"
    using assms(1,2) tms0 tms
    by (simp add: parse_time_def parse_time_loop_append time_span_of_match)
  moreover have "map_of tms [d] = map_of (update_days (days m) ?sp tms0) [d]"
    by (rule parse_time_loop_later [OF assms(4) tms])
  moreover have "map_of (update_days (days m) ?sp tms0) [d] = Some ?sp"
    using assms(3) by (simp add: map_of_update_days)
  ultimately show ?thesis by simp
qed

theorem parse_time_last_write_wins_witness:
  "time_tokens ''M:0900-0950 M:1000-1050'' = [''M:0900-0950''] @ ''M:1000-1050'' # []
   \<and> re_match_time ''M:1000-1050''
       = Some \<lparr>days = ''M'', start_hour = ''10'', start_minute = ''00'',
                end_hour = ''10'', end_minute = ''50''\<rparr>
   \<and> (\<exists>tms. parse_time ''M:0900-0950 M:1000-1050'' = Inr tms
         \<and> map_of tms ''M'' = Some \<lparr>span_start = \<lparr>hour = 10, minute = 0\<rparr>,
                                     span_end = \<lparr>hour = 10, minute = 50\<rparr>\<rparr>)
   \<and> parse_time ''M:0900-0950 M:1000-1050''
       = Inr [(''M'', \<lparr>span_start = \<lparr>hour = 10, minute = 0\<rparr>,
                       span_end = \<lparr>hour = 10, minute = 50\<rparr>\<rparr>)]"
proof -
  let ?m = "\<lparr>days = ''M'', start_hour = ''10'', start_minute = ''00'',
                end_hour = ''10'', end_minute = ''50''\<rparr>"
  have a: "time_tokens ''M:0900-0950 M:1000-1050'' = [''M:0900-0950''] @ ''M:1000-1050'' # []"
    by code_simp
  have b: "re_match_time ''M:1000-1050'' = Some ?m" by code_simp
  have c: "CHR ''M'' \<in> set (days ?m)" by simp
  have d: "\<forall>t'\<in>set []. \<forall>m'. re_match_time t' = Some m' \<longrightarrow> CHR ''M'' \<notin> set (days m')"
    by simp
  have v: "digits_value ''10'' = 10" "digits_value ''00'' = 0" "digits_value ''50'' = 50"
    by code_simp+
  have "\<exists>tms. parse_time ''M:0900-0950 M:1000-1050'' = Inr tms
         \<and> map_of tms ''M'' = Some \<lparr>span_start = \<lparr>hour = 10, minute = 0\<rparr>,
                                     span_end = \<lparr>hour = 10, minute = 50\<rparr>\<rparr>"
    using parse_time_last_write_wins [OF a b c d] by (simp add: v)
  moreover have "parse_time ''M:0900-0950 M:1000-1050''
       = Inr [(''M'', \<lparr>span_start = \<lparr>hour = 10, minute = 0\<rparr>,
                       span_end = \<lparr>hour = 10, minute = 50\<rparr>\<rparr>)]"
    by code_simp
  ultimately show ?thesis using a b by blast
qed

text \<open>
  Claim C7, as amended. \<open>parse_time\<close> checks no range: the regular expression admits any
  two digits, so every hour and minute of the mapping lies between 0 and 99.
\<close>

theorem parse_time_two_digit_fields:
  assumes "parse_time s = Inr tms" and "(d, sp) \<in> set tms"
  shows "0 \<le> hour (span_start sp) \<and> hour (span_start sp) \<le> 99
       \<and> 0 \<le> minute (span_start sp) \<and> minute (span_start sp) \<le> 99
       \<and> 0 \<le> hour (span_end sp) \<and> hour (span_end sp) \<le> 99
       \<and> 0 \<le> minute (span_end sp) \<and> minute (span_end sp) \<le> 99"
proof -
  have "\<forall>(k, sp)\<in>set tms. two_digit_time (span_start sp) \<and> two_digit_time (span_end sp)"
    using parse_time_loop_bounds [of "[]" "time_tokens s" tms] assms(1)
    by (simp add: parse_time_def)
  with assms(2) show ?thesis
    by (auto simp: two_digit_time_def)
qed

theorem parse_time_two_digit_fields_witness:
  "parse_time ''M:2460-9999''
     = Inr [(''M'', \<lparr>span_start = \<lparr>hour = 24, minute = 60\<rparr>, span_end = \<lparr>hour = 99, minute = 99\<rparr>\<rparr>)]
   \<and> (''M'', \<lparr>span_start = \<lparr>hour = 24, minute = 60\<rparr>, span_end = \<lparr>hour = 99, minute = 99\<rparr>\<rparr>)
       \<in> set [(''M'', \<lparr>span_start = \<lparr>hour = 24, minute = 60\<rparr>, span_end = \<lparr>hour = 99, minute = 99\<rparr>\<rparr>)]
   \<and> (0::int) \<le> 24 \<and> (24::int) \<le> 99 \<and> (0::int) \<le> 60 \<and> (60::int) \<le> 99
   \<and> (0::int) \<le> 99 \<and> (99::int) \<le> 99"
proof -
  let ?sp = "\<lparr>span_start = \<lparr>hour = 24, minute = 60\<rparr>, span_end = \<lparr>hour = 99, minute = 99\<rparr>\<rparr>"
  have a: "parse_time ''M:2460-9999'' = Inr [(''M'', ?sp)]" by code_simp
  have b: "(''M'', ?sp) \<in> set [(''M'', ?sp)]" by simp
  show ?thesis
    using parse_time_two_digit_fields [OF a b] a b by simp
qed

text \<open>
  The invariant of Claim C7 as the specification states it fails for the schedule
  \<open>"M:2460-9999"\<close>.
\<close>

theorem parse_time_invariant_counterexample:
  "parse_time ''M:2460-9999''
     = Inr [(''M'', \<lparr>span_start = \<lparr>hour = 24, minute = 60\<rparr>, span_end = \<lparr>hour = 99, minute = 99\<rparr>\<rparr>)]
   \<and> \<not> time_invariant \<lparr>hour = 24, minute = 60\<rparr>
   \<and> \<not> time_invariant \<lparr>hour = 99, minute = 99\<rparr>"
proof -
  have "parse_time ''M:2460-9999''
     = Inr [(''M'', \<lparr>span_start = \<lparr>hour = 24, minute = 60\<rparr>, span_end = \<lparr>hour = 99, minute = 99\<rparr>\<rparr>)]"
    by code_simp
  then show ?thesis by (simp add: time_invariant_def)
qed

text \<open>
  Claim C10. The pattern is matched at the start of the token only. A token \<open>p @ x\<close> that
  consists of a matching token \<open>p\<close> and further characters \<open>x\<close> is accepted with the groups
  of \<open>p\<close>, which are the text of \<open>p\<close>. On its own it parses to the mapping of exactly the
  day letters of \<open>p\<close> to the span of the four two-digit numbers of \<open>p\<close>; after a schedule
  \<open>s1\<close> it sets these days to that span and leaves the other days of \<open>s1\<close>. In both
  positions the result is that of \<open>p\<close> without \<open>x\<close>.
\<close>

theorem re_match_time_prefix_only:
  assumes "re_match_time p = Some m"
    and "CHR '' '' \<notin> set p" and "CHR '' '' \<notin> set x"
  shows "re_match_time (p @ x) = Some m
       \<and> (\<exists>rest. p = days m @ '':'' @ start_hour m @ start_minute m @ ''-''
                      @ end_hour m @ end_minute m @ rest)
       \<and> days m \<noteq> [] \<and> length (start_hour m) = 2 \<and> length (start_minute m) = 2
       \<and> length (end_hour m) = 2 \<and> length (end_minute m) = 2
       \<and> parse_time (p @ x) = parse_time p
       \<and> (\<exists>tms. parse_time (p @ x) = Inr tms
             \<and> (\<forall>k. map_of tms k =
                   (if k \<in> (\<lambda>d. [d]) ` set (days m)
                    then Some \<lparr>span_start = \<lparr>hour = digits_value (start_hour m),
                                              minute = digits_value (start_minute m)\<rparr>,
                               span_end = \<lparr>hour = digits_value (end_hour m),
                                            minute = digits_value (end_minute m)\<rparr>\<rparr>
                    else None)))
       \<and> parse_time (s1 @ '' '' @ p @ x @ '' '' @ s2) = parse_time (s1 @ '' '' @ p @ '' '' @ s2)
       \<and> (\<exists>tms0 tms. parse_time s1 = Inr tms0 \<and> parse_time (s1 @ '' '' @ p @ x) = Inr tms
             \<and> (\<forall>k. map_of tms k =
                   (if k \<in> (\<lambda>d. [d]) ` set (days m)
                    then Some \<lparr>span_start = \<lparr>hour = digits_value (start_hour m),
                                              minute = digits_value (start_minute m)\<rparr>,
                               span_end = \<lparr>hour = digits_value (end_hour m),
                                            minute = digits_value (end_minute m)\<rparr>\<rparr>
                    else map_of tms0 k)))"
proof -
  let ?sp = "\<lparr>span_start = \<lparr>hour = digits_value (start_hour m),
                                              minute = digits_value (start_minute m)\<rparr>,
                               span_end = \<lparr>hour = digits_value (end_hour m),
                                            minute = digits_value (end_minute m)\<rparr>\<rparr>"
  have mx: "re_match_time (p @ x) = Some m"
    using assms(1) by (rule re_match_time_prefix)
  have m: "re_match_time (p @ x) = re_match_time p"
    using mx assms(1) by simp
  from assms(1) have pne: "p \<noteq> []" by (auto simp: re_match_time_def)
  have nsp: "CHR '' '' \<notin> set (p @ x)" using assms(2,3) by simp
  have tp: "time_tokens p = [p]" "time_tokens (p @ x) = [p @ x]"
    using pne assms(2) nsp by (simp_all add: time_tokens_token del: set_append)
  have same: "parse_time (p @ x) = parse_time p"
    using parse_time_loop_same_match [OF m, of "[]" "[]" "[]"]
    by (simp add: parse_time_def tp)
  have one: "parse_time (p @ x) = Inr (update_days (days m) ?sp [])"
    using parse_time_one_match [OF nsp mx] .
  have alone: "\<exists>tms. parse_time (p @ x) = Inr tms
             \<and> (\<forall>k. map_of tms k = (if k \<in> (\<lambda>d. [d]) ` set (days m) then Some ?sp else None))"
    unfolding one by (simp add: map_of_update_days)
  have mid: "parse_time (s1 @ '' '' @ p @ x @ '' '' @ s2) = parse_time (s1 @ '' '' @ p @ '' '' @ s2)"
    using parse_time_loop_same_match [OF m, of "[]" "time_tokens s1" "time_tokens s2"]
      time_tokens_mid [OF nsp, of s1 s2] time_tokens_mid [OF assms(2), of s1 s2]
    by (simp add: parse_time_def tp)
  obtain tms0 where tms0: "parse_time s1 = Inr tms0"
    and aft: "parse_time (s1 @ CHR '' '' # (p @ x)) = Inr (update_days (days m) ?sp tms0)"
    using parse_time_after_match [OF nsp mx, of s1] by blast
  have after: "\<exists>tms0 tms. parse_time s1 = Inr tms0 \<and> parse_time (s1 @ '' '' @ p @ x) = Inr tms
             \<and> (\<forall>k. map_of tms k =
                   (if k \<in> (\<lambda>d. [d]) ` set (days m) then Some ?sp else map_of tms0 k))"
    using tms0 aft by (auto simp: map_of_update_days)
  from mx re_match_time_groups [OF assms(1)] same alone mid after show ?thesis
    by blast
qed

text \<open>The token \<open>"MWF:0900-0950x"\<close>, alone and between two other tokens.\<close>

theorem re_match_time_prefix_only_witness:
  "re_match_time ''MWF:0900-0950''
       = Some \<lparr>days = ''MWF'', start_hour = ''09'', start_minute = ''00'',
                end_hour = ''09'', end_minute = ''50''\<rparr>
   \<and> CHR '' '' \<notin> set ''MWF:0900-0950'' \<and> CHR '' '' \<notin> set ''x''
   \<and> re_match_time ''MWF:0900-0950x''
       = Some \<lparr>days = ''MWF'', start_hour = ''09'', start_minute = ''00'',
                end_hour = ''09'', end_minute = ''50''\<rparr>
   \<and> parse_time ''MWF:0900-0950x'' = parse_time ''MWF:0900-0950''
   \<and> parse_time ''MWF:0900-0950x'' =
       Inr [(''M'', \<lparr>span_start = \<lparr>hour = 9, minute = 0\<rparr>, span_end = \<lparr>hour = 9, minute = 50\<rparr>\<rparr>),
            (''W'', \<lparr>span_start = \<lparr>hour = 9, minute = 0\<rparr>, span_end = \<lparr>hour = 9, minute = 50\<rparr>\<rparr>),
            (''F'', \<lparr>span_start = \<lparr>hour = 9, minute = 0\<rparr>, span_end = \<lparr>hour = 9, minute = 50\<rparr>\<rparr>)]
   \<and> (\<exists>tms. parse_time ''MWF:0900-0950x'' = Inr tms
         \<and> map_of tms ''W'' = Some \<lparr>span_start = \<lparr>hour = 9, minute = 0\<rparr>,
                                     span_end = \<lparr>hour = 9, minute = 50\<rparr>\<rparr>
         \<and> map_of tms ''T'' = None)
   \<and> parse_time ''TBA MWF:0900-0950x T:1000-1050'' = parse_time ''TBA MWF:0900-0950 T:1000-1050''
   \<and> parse_time ''TBA MWF:0900-0950x T:1000-1050'' =
       Inr [(''M'', \<lparr>span_start = \<lparr>hour = 9, minute = 0\<rparr>, span_end = \<lparr>hour = 9, minute = 50\<rparr>\<rparr>),
            (''W'', \<lparr>span_start = \<lparr>hour = 9, minute = 0\<rparr>, span_end = \<lparr>hour = 9, minute = 50\<rparr>\<rparr>),
            (''F'', \<lparr>span_start = \<lparr>hour = 9, minute = 0\<rparr>, span_end = \<lparr>hour = 9, minute = 50\<rparr>\<rparr>),
            (''T'', \<lparr>span_start = \<lparr>hour = 10, minute = 0\<rparr>, span_end = \<lparr>hour = 10, minute = 50\<rparr>\<rparr>)]"
proof -
  let ?m = "\<lparr>days = ''MWF'', start_hour = ''09'', start_minute = ''00'',
                end_hour = ''09'', end_minute = ''50''\<rparr>"
  have a: "re_match_time ''MWF:0900-0950'' = Some ?m" by code_simp
  have b: "CHR '' '' \<notin> set ''MWF:0900-0950''" by simp
  have c: "CHR '' '' \<notin> set ''x''" by simp
  have v: "digits_value ''09'' = 9" "digits_value ''00'' = 0" "digits_value ''50'' = 50"
    by code_simp+
  have w: "[CHR ''W''] \<in> (\<lambda>d. [d]) ` set ''MWF''" "[CHR ''T''] \<notin> (\<lambda>d. [d]) ` set ''MWF''"
    by simp_all
  note inst = re_match_time_prefix_only [OF a b c, of "''TBA''" "''T:1000-1050''"]
  from inst have r1: "re_match_time ''MWF:0900-0950x'' = Some ?m" by simp
  from inst have r2: "parse_time ''MWF:0900-0950x'' = parse_time ''MWF:0900-0950''" by simp
  have sp: "\<lparr>span_start = \<lparr>hour = digits_value (start_hour ?m), minute = digits_value (start_minute ?m)\<rparr>,
             span_end = \<lparr>hour = digits_value (end_hour ?m), minute = digits_value (end_minute ?m)\<rparr>\<rparr>
      = \<lparr>span_start = \<lparr>hour = 9, minute = 0\<rparr>, span_end = \<lparr>hour = 9, minute = 50\<rparr>\<rparr>"
    by (simp add: v)
  have px: "''MWF:0900-0950'' @ ''x'' = ''MWF:0900-0950x''" by simp
  from inst have "\<exists>tms. parse_time (''MWF:0900-0950'' @ ''x'') = Inr tms
             \<and> (\<forall>k. map_of tms k =
       (if k \<in> (\<lambda>d. [d]) ` set (days ?m)
        then Some \<lparr>span_start = \<lparr>hour = digits_value (start_hour ?m), minute = digits_value (start_minute ?m)\<rparr>,
             span_end = \<lparr>hour = digits_value (end_hour ?m), minute = digits_value (end_minute ?m)\<rparr>\<rparr>
        else None))"
    by blast
  then obtain tms where tms: "parse_time ''MWF:0900-0950x'' = Inr tms"
    and look: "\<forall>k. map_of tms k =
       (if k \<in> (\<lambda>d. [d]) ` set (days ?m)
        then Some \<lparr>span_start = \<lparr>hour = digits_value (start_hour ?m), minute = digits_value (start_minute ?m)\<rparr>,
             span_end = \<lparr>hour = digits_value (end_hour ?m), minute = digits_value (end_minute ?m)\<rparr>\<rparr>
        else None)"
    unfolding px by blast
  have dm: "days ?m = ''MWF''" by simp
  from look [rule_format, of "''W''"] w(1) have lw: "map_of tms ''W''
      = Some \<lparr>span_start = \<lparr>hour = 9, minute = 0\<rparr>, span_end = \<lparr>hour = 9, minute = 50\<rparr>\<rparr>"
    unfolding sp dm by simp
  from look [rule_format, of "''T''"] w(2) have lt: "map_of tms ''T'' = None"
    unfolding dm by simp
  from tms lw lt have r3: "\<exists>tms. parse_time ''MWF:0900-0950x'' = Inr tms
         \<and> map_of tms ''W'' = Some \<lparr>span_start = \<lparr>hour = 9, minute = 0\<rparr>,
                                     span_end = \<lparr>hour = 9, minute = 50\<rparr>\<rparr>
         \<and> map_of tms ''T'' = None"
    by blast
  from inst have r4: "parse_time ''TBA MWF:0900-0950x T:1000-1050''
      = parse_time ''TBA MWF:0900-0950 T:1000-1050''" by simp
  have e1: "parse_time ''MWF:0900-0950x'' =
       Inr [(''M'', \<lparr>span_start = \<lparr>hour = 9, minute = 0\<rparr>, span_end = \<lparr>hour = 9, minute = 50\<rparr>\<rparr>),
            (''W'', \<lparr>span_start = \<lparr>hour = 9, minute = 0\<rparr>, span_end = \<lparr>hour = 9, minute = 50\<rparr>\<rparr>),
            (''F'', \<lparr>span_start = \<lparr>hour = 9, minute = 0\<rparr>, span_end = \<lparr>hour = 9, minute = 50\<rparr>\<rparr>)]"
    by code_simp
  have e2: "parse_time ''TBA MWF:0900-0950x T:1000-1050'' =
       Inr [(''M'', \<lparr>span_start = \<lparr>hour = 9, minute = 0\<rparr>, span_end = \<lparr>hour = 9, minute = 50\<rparr>\<rparr>),
            (''W'', \<lparr>span_start = \<lparr>hour = 9, minute = 0\<rparr>, span_end = \<lparr>hour = 9, minute = 50\<rparr>\<rparr>),
            (''F'', \<lparr>span_start = \<lparr>hour = 9, minute = 0\<rparr>, span_end = \<lparr>hour = 9, minute = 50\<rparr>\<rparr>),
            (''T'', \<lparr>span_start = \<lparr>hour = 10, minute = 0\<rparr>, span_end = \<lparr>hour = 10, minute = 50\<rparr>\<rparr>)]"
    by code_simp
  from a b c r1 r2 e1 r3 r4 e2 show ?thesis by blast
qed

section \<open>Properties of the formatter\<close>

declare str_nat.simps [simp del]

lemma read_lit_append: "read_lit l (l @ s) = Some s"
  by (induction l) auto

lemma digit_char_digit: "d < 10 \<Longrightarrow> is_digit (digit_char d) \<and> digit_val (digit_char d) = int d"
  by (simp add: digit_char_def is_digit_def digit_val_def)

lemma digits_value_snoc:
  "is_digit c \<Longrightarrow> digits_value (xs @ [c]) = 10 * digits_value xs + digit_val c"
  by (simp add: digits_value_def)

lemma str_nat_digits: "(\<forall>c\<in>set (str_nat n). is_digit c) \<and> str_nat n \<noteq> []"
proof (induction n rule: str_nat.induct)
  case (1 n)
  show ?case
  proof (cases "n < 10")
    case True
    then show ?thesis by (subst (1 2) str_nat.simps) (simp add: digit_char_digit)
  next
    case False
    with 1 show ?thesis
      by (subst (1 2) str_nat.simps) (simp add: digit_char_digit)
  qed
qed

lemma digits_value_str_nat: "digits_value (str_nat n) = int n"
proof (induction n rule: str_nat.induct)
  case (1 n)
  show ?case
  proof (cases "n < 10")
    case True
    then have "str_nat n = [] @ [digit_char n]" by (subst str_nat.simps) simp
    then show ?thesis
      using True digits_value_snoc [of "digit_char n" "[]"]
      by (simp add: digit_char_digit digits_value_def)
  next
    case False
    then have "str_nat n = str_nat (n div 10) @ [digit_char (n mod 10)]"
      by (subst str_nat.simps) simp
    moreover have "10 * int (n div 10) + int (n mod 10) = int n"
      by presburger
    ultimately show ?thesis
      using False 1 digit_char_digit [of "n mod 10"]
      by (simp add: digits_value_snoc)
  qed
qed

lemma takeWhile_digits:
  assumes "\<forall>c\<in>set ds. is_digit c" and "rest = [] \<or> \<not> is_digit (hd rest)"
  shows "takeWhile is_digit (ds @ rest) = ds \<and> dropWhile is_digit (ds @ rest) = rest"
  using assms by (cases rest) (auto simp: takeWhile_append2 dropWhile_append2)

lemma not_digit_minus: "\<not> is_digit CHR ''-''"
  by (simp add: is_digit_def)

lemma read_int_str_int:
  assumes "rest = [] \<or> \<not> is_digit (hd rest)"
  shows "read_int (str_int i @ rest) = Some (i, rest)"
proof (cases "i < 0")
  case True
  let ?ds = "str_nat (nat (- i))"
  have s: "str_int i @ rest = CHR ''-'' # (?ds @ rest)"
    using True by (simp add: str_int_def)
  have tw: "takeWhile is_digit (?ds @ rest) = ?ds" "dropWhile is_digit (?ds @ rest) = rest"
    using takeWhile_digits [OF _ assms, of ?ds] str_nat_digits [of "nat (- i)"] by auto
  have "digits_value ?ds = - i"
    using True by (simp add: digits_value_str_nat)
  then show ?thesis
    unfolding s read_int_def using str_nat_digits [of "nat (- i)"]
    by (simp add: tw Let_def)
next
  case False
  let ?ds = "str_nat (nat i)"
  have s: "str_int i @ rest = ?ds @ rest"
    using False by (simp add: str_int_def)
  have ne: "?ds \<noteq> []" and dg: "\<forall>c\<in>set ?ds. is_digit c"
    using str_nat_digits [of "nat i"] by auto
  then obtain c cs where c: "?ds = c # cs" "is_digit c"
    by (cases ?ds) auto
  have neg: "(case ?ds @ rest of [] \<Rightarrow> False | c # _ \<Rightarrow> c = CHR ''-'') = False"
    using c not_digit_minus by auto
  have tw: "takeWhile is_digit (?ds @ rest) = ?ds" "dropWhile is_digit (?ds @ rest) = rest"
    using takeWhile_digits [OF dg assms] by auto
  have "digits_value ?ds = i"
    using False by (simp add: digits_value_str_nat)
  then show ?thesis
    unfolding s read_int_def neg using ne
    by (simp add: tw Let_def)
qed

lemma hex_val_hex_digit: "d < 16 \<Longrightarrow> hex_val (hex_digit d) = Some d"
  by (auto simp: hex_val_def hex_digit_def Let_def)

lemma hex_val_zero: "hex_val CHR ''0'' = Some 0"
  by (simp add: hex_val_def)

lemma char_of_hex: "char_of (16 * ((of_char c :: nat) div 16) + (of_char c :: nat) mod 16) = c"
  by simp

lemma cons_fst_simps: "cons_fst c None = None" "cons_fst c (Some (s, r)) = Some (c # s, r)"
  by (simp_all add: cons_fst_def)

lemma read_chars_escape: "read_chars (json_escape_char c @ r) = cons_fst c (read_chars r)"
proof -
  consider (bs) "c = CHR 0x5C" | (dq) "c = CHR 0x22" | (b) "c = CHR 0x08" | (f) "c = CHR 0x0C"
    | (n) "c = CHR 0x0A" | (r) "c = CHR 0x0D" | (t) "c = CHR 0x09"
    | (plain) "c \<noteq> CHR 0x5C" "c \<noteq> CHR 0x22" "32 \<le> (of_char c :: nat)" "(of_char c :: nat) \<le> 126"
    | (other) "c \<noteq> CHR 0x5C" "c \<noteq> CHR 0x22" "c \<noteq> CHR 0x08" "c \<noteq> CHR 0x0C"
        "c \<noteq> CHR 0x0A" "c \<noteq> CHR 0x0D" "c \<noteq> CHR 0x09"
        "\<not> (32 \<le> (of_char c :: nat) \<and> (of_char c :: nat) \<le> 126)"
    by blast
  then show ?thesis
  proof cases
    case other
    have d: "(of_char c :: nat) div 16 < 16" "(of_char c :: nat) mod 16 < 16"
      using nat_of_char_less_256 [of c] by (simp_all add: less_mult_imp_div_less)
    have e: "json_escape_char c = [CHR 0x5C, CHR ''u'', CHR ''0'', CHR ''0'',
            hex_digit ((of_char c :: nat) div 16), hex_digit ((of_char c :: nat) mod 16)]"
      using other by (simp add: json_escape_char_def)
    show ?thesis
      unfolding e
      by (simp add: hex_val_zero hex_val_hex_digit [OF d(1)] hex_val_hex_digit [OF d(2)])
  qed (auto simp: json_escape_char_def unescape_def)
qed

lemma read_chars_json:
  "read_chars (concat (map json_escape_char s) @ CHR 0x22 # rest) = Some (s, rest)"
  by (induction s) (simp_all add: read_chars_escape cons_fst_simps)

lemma read_string_json: "read_string (json_string s @ rest) = Some (s, rest)"
  by (simp add: read_string_def json_string_def read_chars_json)

lemma not_digit_comma_brace: "\<not> is_digit CHR '',''" "\<not> is_digit CHR ''}''"
  by (simp_all add: is_digit_def)

lemma read_time_json: "read_time (json_time tm @ rest) = Some (tm, rest)"
proof -
  let ?l1 = "''{'' @ json_string ''hour'' @ '': ''"
  let ?l2 = "'', '' @ json_string ''minute'' @ '': ''"
  let ?s4 = "''}'' @ rest"
  let ?s3 = "str_int (minute tm) @ ?s4"
  let ?s2 = "?l2 @ ?s3"
  let ?s1 = "str_int (hour tm) @ ?s2"
  have e: "json_time tm @ rest = ?l1 @ ?s1"
    by (simp add: json_time_def)
  have a: "read_lit ?l1 (?l1 @ ?s1) = Some ?s1" by (rule read_lit_append)
  have b: "read_int ?s1 = Some (hour tm, ?s2)"
    by (rule read_int_str_int) (simp add: not_digit_comma_brace)
  have c: "read_lit ?l2 ?s2 = Some ?s3" by (rule read_lit_append)
  have d: "read_int ?s3 = Some (minute tm, ?s4)"
    by (rule read_int_str_int) (simp add: not_digit_comma_brace)
  have f: "read_lit ''}'' ?s4 = Some rest" by (rule read_lit_append)
  show ?thesis
    by (simp only: read_time_def e a b c d f option.case prod.case) simp
qed

lemma read_time_span_json: "read_time_span (json_time_span sp @ rest) = Some (sp, rest)"
proof -
  let ?l1 = "''{'' @ json_string ''start'' @ '': ''"
  let ?l2 = "'', '' @ json_string ''end'' @ '': ''"
  let ?s4 = "''}'' @ rest"
  let ?s3 = "json_time (span_end sp) @ ?s4"
  let ?s2 = "?l2 @ ?s3"
  let ?s1 = "json_time (span_start sp) @ ?s2"
  have e: "json_time_span sp @ rest = ?l1 @ ?s1"
    by (simp add: json_time_span_def)
  have a: "read_lit ?l1 (?l1 @ ?s1) = Some ?s1" by (rule read_lit_append)
  have b: "read_time ?s1 = Some (span_start sp, ?s2)" by (rule read_time_json)
  have c: "read_lit ?l2 ?s2 = Some ?s3" by (rule read_lit_append)
  have d: "read_time ?s3 = Some (span_end sp, ?s4)" by (rule read_time_json)
  have f: "read_lit ''}'' ?s4 = Some rest" by (rule read_lit_append)
  show ?thesis
    by (simp only: read_time_span_def e a b c d f option.case prod.case) simp
qed

lemma read_item_json: "read_item (json_item kv @ rest) = Some (kv, rest)"
proof -
  let ?s2 = "json_time_span (snd kv) @ rest"
  let ?s1 = "'': '' @ ?s2"
  have e: "json_item kv @ rest = json_string (fst kv) @ ?s1"
    by (simp add: json_item_def)
  have a: "read_string (json_string (fst kv) @ ?s1) = Some (fst kv, ?s1)"
    by (rule read_string_json)
  have b: "read_lit '': '' ?s1 = Some ?s2" by (rule read_lit_append)
  have c: "read_time_span ?s2 = Some (snd kv, rest)" by (rule read_time_span_json)
  show ?thesis
    by (simp only: read_item_def e a b c option.case prod.case) simp
qed

lemma json_item_head: "\<exists>r. json_item kv @ rest = CHR 0x22 # r"
  by (simp add: json_item_def json_string_def)

lemma read_more_items_json:
  "length kvs < n \<Longrightarrow>
   read_more_items n (concat (map (\<lambda>kv. '', '' @ json_item kv) kvs) @ ''}'' @ rest)
     = Some (kvs, rest)"
proof (induction kvs arbitrary: n)
  case Nil
  then obtain k where "n = Suc k" by (cases n) auto
  then show ?case by simp
next
  case (Cons kv kvs)
  then obtain k where n: "n = Suc k" and k: "length kvs < k" by (cases n) auto
  let ?tail = "concat (map (\<lambda>kv. '', '' @ json_item kv) kvs) @ ''}'' @ rest"
  let ?s1 = "json_item kv @ ?tail"
  have e: "concat (map (\<lambda>kv. '', '' @ json_item kv) (kv # kvs)) @ ''}'' @ rest = '', '' @ ?s1"
    by simp
  have a: "read_lit ''}'' ('', '' @ ?s1) = None" by simp
  have b: "read_lit '', '' ('', '' @ ?s1) = Some ?s1" by (rule read_lit_append)
  have c: "read_item ?s1 = Some (kv, ?tail)" by (rule read_item_json)
  have d: "read_more_items k ?tail = Some (kvs, rest)" by (rule Cons.IH [OF k])
  show ?case
    by (simp only: n e read_more_items.simps a b c d option.case prod.case)
qed

lemma str_join_items:
  "str_join '', '' (map json_item (kv # kvs))
     = json_item kv @ concat (map (\<lambda>kv. '', '' @ json_item kv) kvs)"
  by (induction kvs arbitrary: kv) simp_all

lemma length_concat_ge: "length kvs \<le> length (concat (map (\<lambda>kv. '', '' @ json_item kv) kvs))"
  by (induction kvs) auto

lemma times_from_json_to_json: "times_from_json (times_to_json tms) = Some tms"
proof (cases tms)
  case Nil
  then show ?thesis by (simp add: times_from_json_def times_to_json_def)
next
  case (Cons kv kvs)
  let ?tail = "concat (map (\<lambda>kv. '', '' @ json_item kv) kvs) @ ''}'' @ []"
  let ?s1 = "json_item kv @ ?tail"
  have e: "times_to_json (kv # kvs) = ''{'' @ ?s1"
    unfolding times_to_json_def str_join_items by simp
  have a: "read_lit ''{'' (''{'' @ ?s1) = Some ?s1" by (rule read_lit_append)
  obtain r where r: "?s1 = CHR 0x22 # r"
    using json_item_head [of kv ?tail] by blast
  have b: "read_lit ''}'' ?s1 = None" unfolding r by simp
  have c: "read_item ?s1 = Some (kv, ?tail)" by (rule read_item_json)
  have "length kvs < Suc (length ?tail)"
    using length_concat_ge [of kvs] by simp
  then have d: "read_more_items (Suc (length ?tail)) ?tail = Some (kvs, [])"
    by (rule read_more_items_json)
  show ?thesis
    unfolding Cons by (simp only: times_from_json_def e a b c d option.case prod.case) simp
qed

lemma str_join_Cons:
  "str_join sep (x # xs) = x @ (if xs = [] then [] else sep @ str_join sep xs)"
  by (cases xs) simp_all

lemma str_join_mid:
  "\<exists>p q. str_join sep (xs @ a # rest) = p @ a @ q
         \<and> q = (if rest = [] then [] else sep @ str_join sep rest)"
proof (induction xs)
  case Nil
  have "str_join sep ([] @ a # rest) = [] @ a @ (if rest = [] then [] else sep @ str_join sep rest)"
    by (simp add: str_join_Cons)
  then show ?case by blast
next
  case (Cons x xs)
  then obtain p q where pq: "str_join sep (xs @ a # rest) = p @ a @ q"
    "q = (if rest = [] then [] else sep @ str_join sep rest)" by blast
  have "str_join sep ((x # xs) @ a # rest) = (x @ sep @ p) @ a @ q"
    using pq(1) by (simp add: str_join_Cons)
  with pq(2) show ?case by blast
qed

lemma list_to_db_array_one:
  assumes "i < length li"
  shows "\<exists>p q. list_to_db_array li = p @ quoted (li ! i) @ q"
proof -
  have li: "li = take i li @ li ! i # drop (Suc i) li"
    using assms by (rule id_take_nth_drop)
  obtain p q where "str_join '', '' (map quoted (take i li) @ quoted (li ! i) # map quoted (drop (Suc i) li))
      = p @ quoted (li ! i) @ q"
    using str_join_mid by blast
  then have "str_join '', '' (map quoted li) = p @ quoted (li ! i) @ q"
    by (subst li) simp
  then have "list_to_db_array li = (''{'' @ p) @ quoted (li ! i) @ (q @ ''}'')"
    by (simp add: list_to_db_array_def)
  then show ?thesis by blast
qed

lemma list_to_db_array_two:
  assumes "i < j" "j < length li"
  shows "\<exists>p m q. list_to_db_array li = p @ quoted (li ! i) @ m @ quoted (li ! j) @ q"
proof -
  let ?rest = "drop (Suc i) li"
  have li: "li = take i li @ li ! i # ?rest"
    using assms by (intro id_take_nth_drop) simp
  have j: "j - Suc i < length ?rest" "?rest ! (j - Suc i) = li ! j"
    using assms by simp_all
  have rest: "?rest = take (j - Suc i) ?rest @ li ! j # drop (Suc (j - Suc i)) ?rest"
    using id_take_nth_drop [OF j(1)] j(2) by simp
  then have ne: "?rest \<noteq> []" by auto
  obtain p q where pq: "str_join '', '' (map quoted (take i li) @ quoted (li ! i) # map quoted ?rest)
      = p @ quoted (li ! i) @ q" "q = (if map quoted ?rest = [] then [] else '', '' @ str_join '', '' (map quoted ?rest))"
    using str_join_mid by blast
  obtain p' q' where pq': "str_join '', '' (map quoted (take (j - Suc i) ?rest) @ quoted (li ! j)
        # map quoted (drop (Suc (j - Suc i)) ?rest)) = p' @ quoted (li ! j) @ q'"
    using str_join_mid by blast
  have "str_join '', '' (map quoted ?rest) = p' @ quoted (li ! j) @ q'"
    using pq' by (subst rest) simp
  with pq(2) ne have q: "q = '', '' @ p' @ quoted (li ! j) @ q'" by simp
  have "str_join '', '' (map quoted li) = p @ quoted (li ! i) @ q"
    using pq(1) by (subst li) simp
  then have "list_to_db_array li = (''{'' @ p) @ quoted (li ! i) @ ('', '' @ p') @ quoted (li ! j) @ (q' @ ''}'')"
    unfolding q by (simp add: list_to_db_array_def)
  then show ?thesis by blast
qed

lemma insert_query_contains:
  "\<exists>p m q. course_to_db_insert_query c
     = p @ list_to_db_array (attributes c) @ m @ times_to_json (time c) @ q"
proof -
  let ?q = "\<lambda>v. [CHR 0x27] @ v @ [CHR 0x27]"
  let ?pre = "map ?q [crn c, course_id c, term_name c, term_code c, subject c, subject_code c]"
  let ?mid = "map ?q [title c, instructor c, credit_hours c]"
  let ?post = "map ?q [str_int (proj_enr c), str_int (curr_enr c), seats_avail c, status c]"
  have "course_to_db_insert_query c =
      (''('' @ str_join '', '' ?pre @ '', '' @ [CHR 0x27]) @ list_to_db_array (attributes c)
      @ ([CHR 0x27] @ '', '' @ str_join '', '' ?mid @ '', '' @ [CHR 0x27]) @ times_to_json (time c)
      @ ([CHR 0x27] @ '', '' @ str_join '', '' ?post @ '')'')"
    by (simp add: course_to_db_insert_query_def)
  then show ?thesis by blast
qed

section \<open>Claims about the formatter\<close>

text \<open>
  Claim C9. The array literal holds every value of the attributes between double quotes,
  and a value that comes earlier in the sequence stands earlier in the literal. Reading
  the document written for a time mapping gives the mapping back. The tuple of a course
  holds both texts.
\<close>

theorem formatter_serialization:
  "(\<forall>i j. i < j \<and> j < length li \<longrightarrow>
       (\<exists>p m q. list_to_db_array li = p @ quoted (li ! i) @ m @ quoted (li ! j) @ q))
   \<and> (\<forall>i. i < length li \<longrightarrow> (\<exists>p q. list_to_db_array li = p @ quoted (li ! i) @ q))
   \<and> times_from_json (times_to_json tms) = Some tms
   \<and> (\<exists>p m q. course_to_db_insert_query c
         = p @ list_to_db_array (attributes c) @ m @ times_to_json (time c) @ q)"
  using list_to_db_array_two [of _ _ li] list_to_db_array_one [of _ li]
    times_from_json_to_json [of tms] insert_query_contains [of c]
  by blast

text \<open>
  The examples of the specification: the attributes \<open>["A", "B"]\<close> and the mapping of
  \<open>M\<close> to one span.
\<close>

theorem formatter_serialization_witness:
  "list_to_db_array [''A'', ''B''] = ''{'' @ quoted ''A'' @ '', '' @ quoted ''B'' @ ''}''
   \<and> (\<exists>p m q. list_to_db_array [''A'', ''B''] = p @ quoted ''A'' @ m @ quoted ''B'' @ q)
   \<and> times_to_json [(''M'', \<lparr>span_start = \<lparr>hour = 9, minute = 0\<rparr>,
                              span_end = \<lparr>hour = 9, minute = 50\<rparr>\<rparr>)]
       = ''{'' @ quoted ''M'' @ '': {'' @ quoted ''start'' @ '': {'' @ quoted ''hour'' @ '': 9, ''
           @ quoted ''minute'' @ '': 0}, '' @ quoted ''end'' @ '': {'' @ quoted ''hour'' @ '': 9, ''
           @ quoted ''minute'' @ '': 50}}}''
   \<and> times_from_json
        (times_to_json [(''M'', \<lparr>span_start = \<lparr>hour = 9, minute = 0\<rparr>,
                                  span_end = \<lparr>hour = 9, minute = 50\<rparr>\<rparr>)])
       = Some [(''M'', \<lparr>span_start = \<lparr>hour = 9, minute = 0\<rparr>,
                         span_end = \<lparr>hour = 9, minute = 50\<rparr>\<rparr>)]"
proof -
  let ?tms = "[(''M'', \<lparr>span_start = \<lparr>hour = 9, minute = 0\<rparr>,
                         span_end = \<lparr>hour = 9, minute = 50\<rparr>\<rparr>)]"
  note inst = formatter_serialization [of "[''A'', ''B'']" ?tms]
  have a: "list_to_db_array [''A'', ''B''] = ''{'' @ quoted ''A'' @ '', '' @ quoted ''B'' @ ''}''"
    by code_simp
  have "(0::nat) < 1 \<and> 1 < length [''A'', ''B'']" by simp
  with inst have b: "\<exists>p m q. list_to_db_array [''A'', ''B'']
      = p @ quoted ([''A'', ''B''] ! 0) @ m @ quoted ([''A'', ''B''] ! 1) @ q"
    by blast
  have c: "times_to_json ?tms
       = ''{'' @ quoted ''M'' @ '': {'' @ quoted ''start'' @ '': {'' @ quoted ''hour'' @ '': 9, ''
           @ quoted ''minute'' @ '': 0}, '' @ quoted ''end'' @ '': {'' @ quoted ''hour'' @ '': 9, ''
           @ quoted ''minute'' @ '': 50}}}''"
    by code_simp
  from inst have d: "times_from_json (times_to_json ?tms) = Some ?tms" by blast
  from a b c d show ?thesis by simp
qed

section \<open>Properties of parse_table\<close>

lemma bind_simps: "bind (Inl e) f = Inl e" "bind (Inr x) f = f x"
  by (simp_all add: bind_def)

lemma bind_eq_Inr: "bind r f = Inr y \<longleftrightarrow> (\<exists>x. r = Inr x \<and> f x = Inr y)"
  by (cases r) (simp_all add: bind_def)

lemma cell_eq_Inr: "cell cells k = Inr x \<longleftrightarrow> k < length cells \<and> x = cells ! k"
  by (auto simp: cell_def)

lemma found_eq_Inr: "found r = Inr x \<longleftrightarrow> r = Some x"
  by (cases r) (simp_all add: found_def)

lemma py_int_error: "py_int s = Inl e \<Longrightarrow> e = ValueError"
  by (auto simp: py_int_def Let_def split: if_splits)

lemma parse_row_InrD:
  assumes "parse_row nfc t tc s sc row = Inr c"
  shows "10 < length (find_all ''td'' row)
       \<and> py_int (get_text (find_all ''td'' row ! 7)) = Inr (proj_enr c)
       \<and> py_int (get_text (find_all ''td'' row ! 8)) = Inr (curr_enr c)
       \<and> term_name c = t \<and> term_code c = tc \<and> subject c = s \<and> subject_code c = sc"
  using assms
  by (auto simp: parse_row_def Let_def bind_eq_Inr cell_eq_Inr found_eq_Inr)

lemma bad_enrollment_no_record:
  "bad_enrollment row \<Longrightarrow> parse_row nfc t tc s sc row \<noteq> Inr c"
  using parse_row_InrD [of nfc t tc s sc row c]
  by (auto simp: bad_enrollment_def Let_def)

lemma bad_enrollment_ValueError:
  assumes "bad_enrollment row" and "find_tag ''a'' (find_all ''td'' row ! 0) \<noteq> None"
  shows "parse_row nfc t tc s sc row = Inl ValueError"
proof -
  let ?cells = "find_all ''td'' row"
  from assms(1) have len: "7 < length ?cells"
    by (auto simp: bad_enrollment_def Let_def)
  then have cs: "\<And>k. k \<le> 7 \<Longrightarrow> cell ?cells k = Inr (?cells ! k)"
    by (simp add: cell_def)
  from assms(2) obtain a where a: "found (find_tag ''a'' (?cells ! 0)) = Inr a"
    by (auto simp: found_def)
  obtain tm where tm: "parse_time (get_text (?cells ! 6)) = Inr tm"
    using parse_time_total by blast
  show ?thesis
  proof (cases "py_int (get_text (?cells ! 7))")
    case (Inl e)
    then have "e = ValueError" by (rule py_int_error)
    with Inl show ?thesis
      by (simp add: parse_row_def Let_def cs a tm bind_simps)
  next
    case (Inr pe)
    with assms(1) have 8: "8 < length ?cells" "py_int (get_text (?cells ! 8)) = Inl ValueError"
      by (auto simp: bad_enrollment_def Let_def)
    then have "cell ?cells 8 = Inr (?cells ! 8)" by (simp add: cell_def)
    with Inr 8 show ?thesis
      by (simp add: parse_row_def Let_def cs a tm bind_simps)
  qed
qed

lemma parse_row_complete:
  assumes "10 < length (find_all ''td'' row)"
    and "find_tag ''a'' (find_all ''td'' row ! 0) \<noteq> None"
    and "py_int (get_text (find_all ''td'' row ! 7)) = Inr p"
    and "py_int (get_text (find_all ''td'' row ! 8)) = Inr q"
  shows "\<exists>c. parse_row nfc t tc s sc row = Inr c \<and> proj_enr c = p \<and> curr_enr c = q"
proof -
  let ?cells = "find_all ''td'' row"
  from assms(1) have cs: "\<And>k. k \<le> 10 \<Longrightarrow> cell ?cells k = Inr (?cells ! k)"
    by (simp add: cell_def)
  from assms(2) obtain a where a: "found (find_tag ''a'' (?cells ! 0)) = Inr a"
    by (auto simp: found_def)
  obtain tm where tm: "parse_time (get_text (?cells ! 6)) = Inr tm"
    using parse_time_total by blast
  show ?thesis
    by (simp add: parse_row_def Let_def cs a tm assms(3,4) bind_simps)
qed

lemma parse_rows_Inr:
  "parse_rows nfc t tc s sc acc rows = Inr cs \<Longrightarrow>
   \<exists>cs'. cs = acc @ cs' \<and> list_all2 (\<lambda>r c. parse_row nfc t tc s sc r = Inr c) rows cs'"
proof (induction rows arbitrary: acc)
  case Nil
  then show ?case by simp
next
  case (Cons r rows)
  from Cons.prems obtain c where c: "parse_row nfc t tc s sc r = Inr c"
    and rest: "parse_rows nfc t tc s sc (acc @ [c]) rows = Inr cs"
    by (auto simp: bind_eq_Inr)
  from Cons.IH [OF rest] obtain cs' where
    "cs = (acc @ [c]) @ cs'" "list_all2 (\<lambda>r c. parse_row nfc t tc s sc r = Inr c) rows cs'"
    by blast
  then have "cs = acc @ (c # cs') \<and> list_all2 (\<lambda>r c. parse_row nfc t tc s sc r = Inr c) (r # rows) (c # cs')"
    using c by simp
  then show ?case by blast
qed

lemma parse_rows_first_error:
  assumes "\<forall>x\<in>set pre. \<exists>c. parse_row nfc t tc s sc x = Inr c"
    and "parse_row nfc t tc s sc r = Inl e"
  shows "parse_rows nfc t tc s sc acc (pre @ r # post) = Inl e"
  using assms(1)
proof (induction pre arbitrary: acc)
  case Nil
  with assms(2) show ?case by (simp add: bind_simps)
next
  case (Cons x pre)
  then obtain c where "parse_row nfc t tc s sc x = Inr c" by auto
  with Cons show ?case by (simp add: bind_simps)
qed

lemma parse_rows_all_ok:
  assumes "\<forall>x\<in>set rows. \<exists>c. parse_row nfc t tc s sc x = Inr c"
  shows "\<exists>cs. parse_rows nfc t tc s sc acc rows = Inr cs"
  using assms
proof (induction rows arbitrary: acc)
  case Nil
  show ?case by simp
next
  case (Cons x rows)
  then obtain c where "parse_row nfc t tc s sc x = Inr c" by auto
  with Cons show ?case by (simp add: bind_simps)
qed

section \<open>Claims about parse_table\<close>

text \<open>
  Claim C6. Let the table have the rows \<open>rows\<close>. If cell 7 or cell 8 of some row holds
  no integer, \<open>parse_table\<close> raises and returns no record at all; when the rows before
  it parse and its first cell has a link, the exception is the \<open>ValueError\<close> of \<open>int()\<close>.
  If \<open>parse_table\<close> returns records, there is one for each row, and its \<open>proj_enr\<close> and
  \<open>curr_enr\<close> are the integers of cells 7 and 8; it does return records when every row
  has its eleven cells, a link in the first and integers in cells 7 and 8.
\<close>

theorem parse_table_enrollment:
  assumes "table_rows soup = Inr rows"
  shows "(\<forall>r\<in>set rows. bad_enrollment r \<longrightarrow> (\<exists>e. parse_table nfc soup t tc s sc = Inl e))
    \<and> (\<forall>pre r post. rows = pre @ r # post
           \<and> (\<forall>x\<in>set pre. \<exists>c. parse_row nfc t tc s sc x = Inr c)
           \<and> bad_enrollment r \<and> find_tag ''a'' (find_all ''td'' r ! 0) \<noteq> None
         \<longrightarrow> parse_table nfc soup t tc s sc = Inl ValueError)
    \<and> (\<forall>cs. parse_table nfc soup t tc s sc = Inr cs \<longrightarrow>
           length cs = length rows
           \<and> (\<forall>i<length rows.
                 py_int (get_text (find_all ''td'' (rows ! i) ! 7)) = Inr (proj_enr (cs ! i))
               \<and> py_int (get_text (find_all ''td'' (rows ! i) ! 8)) = Inr (curr_enr (cs ! i))))
    \<and> ((\<forall>r\<in>set rows. 10 < length (find_all ''td'' r)
              \<and> find_tag ''a'' (find_all ''td'' r ! 0) \<noteq> None
              \<and> (\<exists>p. py_int (get_text (find_all ''td'' r ! 7)) = Inr p)
              \<and> (\<exists>q. py_int (get_text (find_all ''td'' r ! 8)) = Inr q))
         \<longrightarrow> (\<exists>cs. parse_table nfc soup t tc s sc = Inr cs))"
proof -
  have pt: "parse_table nfc soup t tc s sc = parse_rows nfc t tc s sc [] rows"
    using assms by (simp add: parse_table_def bind_simps)
  have ok: "\<And>cs. parse_table nfc soup t tc s sc = Inr cs \<Longrightarrow>
      list_all2 (\<lambda>r c. parse_row nfc t tc s sc r = Inr c) rows cs"
    unfolding pt using parse_rows_Inr [of nfc t tc s sc "[]" rows] by auto
  have a: "\<exists>e. parse_table nfc soup t tc s sc = Inl e" if "r \<in> set rows" "bad_enrollment r" for r
  proof (cases "parse_table nfc soup t tc s sc")
    case (Inl e)
    then show ?thesis by blast
  next
    case (Inr cs)
    from ok [OF Inr] that(1) obtain c where "parse_row nfc t tc s sc r = Inr c"
      by (auto simp: list_all2_conv_all_nth in_set_conv_nth)
    with bad_enrollment_no_record [OF that(2)] show ?thesis by blast
  qed
  have b: "parse_table nfc soup t tc s sc = Inl ValueError"
    if "rows = pre @ r # post" "\<forall>x\<in>set pre. \<exists>c. parse_row nfc t tc s sc x = Inr c"
      "bad_enrollment r" "find_tag ''a'' (find_all ''td'' r ! 0) \<noteq> None" for pre r post
    unfolding pt that(1)
    by (rule parse_rows_first_error [OF that(2) bad_enrollment_ValueError [OF that(3,4)]])
  have c: "length cs = length rows
           \<and> (\<forall>i<length rows.
                 py_int (get_text (find_all ''td'' (rows ! i) ! 7)) = Inr (proj_enr (cs ! i))
               \<and> py_int (get_text (find_all ''td'' (rows ! i) ! 8)) = Inr (curr_enr (cs ! i)))"
    if "parse_table nfc soup t tc s sc = Inr cs" for cs
    using ok [OF that] parse_row_InrD [of nfc t tc s sc]
    by (auto simp: list_all2_conv_all_nth)
  have d: "\<exists>cs. parse_table nfc soup t tc s sc = Inr cs"
    if "\<forall>r\<in>set rows. 10 < length (find_all ''td'' r)
              \<and> find_tag ''a'' (find_all ''td'' r ! 0) \<noteq> None
              \<and> (\<exists>p. py_int (get_text (find_all ''td'' r ! 7)) = Inr p)
              \<and> (\<exists>q. py_int (get_text (find_all ''td'' r ! 8)) = Inr q)"
  proof -
    have "\<forall>x\<in>set rows. \<exists>c. parse_row nfc t tc s sc x = Inr c"
      using that parse_row_complete [of _ _ _ nfc t tc s sc] by blast
    then show ?thesis unfolding pt by (rule parse_rows_all_ok)
  qed
  from a b c d show ?thesis by blast
qed

text \<open>
  A table whose second row has \<open>ten\<close> in cell 7, and the table of the end-to-end scenario
  of the specification.
\<close>

theorem parse_table_enrollment_witness:
  "table_rows (example_results [example_row ''10'' ''8'', example_row ''ten'' ''8''])
     = Inr [example_row ''10'' ''8'', example_row ''ten'' ''8'']
   \<and> bad_enrollment (example_row ''ten'' ''8'')
   \<and> parse_table id (example_results [example_row ''10'' ''8'', example_row ''ten'' ''8''])
        ''Fall 2023'' ''20233'' ''Computer Science'' ''CSCI'' = Inl ValueError
   \<and> table_rows (example_results [example_row ''10'' ''8'']) = Inr [example_row ''10'' ''8'']
   \<and> (\<exists>c. parse_table id (example_results [example_row ''10'' ''8''])
              ''Fall 2023'' ''20233'' ''Computer Science'' ''CSCI'' = Inr [c]
          \<and> crn c = ''12345'' \<and> proj_enr c = 10 \<and> curr_enr c = 8
          \<and> term_code c = ''20233'' \<and> subject_code c = ''CSCI'')"
proof -
  let ?good = "example_row ''10'' ''8''"
  let ?bad = "example_row ''ten'' ''8''"
  let ?pt = "\<lambda>soup. parse_table id soup ''Fall 2023'' ''20233'' ''Computer Science'' ''CSCI''"
  have r2: "table_rows (example_results [?good, ?bad]) = Inr [?good, ?bad]" by code_simp
  have bad: "bad_enrollment ?bad" by code_simp
  have a: "find_tag ''a'' (find_all ''td'' ?bad ! 0) \<noteq> None" by code_simp
  have v: "py_int (get_text (find_all ''td'' ?good ! 7)) = Inr 10"
    "py_int (get_text (find_all ''td'' ?good ! 8)) = Inr 8"
    "10 < length (find_all ''td'' ?good)"
    "find_tag ''a'' (find_all ''td'' ?good ! 0) \<noteq> None"
    by code_simp+
  have pre: "\<forall>x\<in>set [?good]. \<exists>c. parse_row id ''Fall 2023'' ''20233'' ''Computer Science'' ''CSCI'' x = Inr c"
    using parse_row_complete [OF v(3,4,1,2), of id "''Fall 2023''" "''20233''" "''Computer Science''" "''CSCI''"]
    by auto
  have split: "[?good, ?bad] = [?good] @ ?bad # []" by simp
  have e: "?pt (example_results [?good, ?bad]) = Inl ValueError"
    using parse_table_enrollment [OF r2, of id "''Fall 2023''" "''20233''" "''Computer Science''" "''CSCI''"]
      split pre bad a by blast
  have r1: "table_rows (example_results [?good]) = Inr [?good]" by code_simp
  have "(case ?pt (example_results [?good]) of
           Inr [c] \<Rightarrow> crn c = ''12345'' \<and> proj_enr c = 10 \<and> curr_enr c = 8
                      \<and> term_code c = ''20233'' \<and> subject_code c = ''CSCI''
         | _ \<Rightarrow> False)"
    by code_simp
  then have g: "\<exists>c. ?pt (example_results [?good]) = Inr [c]
          \<and> crn c = ''12345'' \<and> proj_enr c = 10 \<and> curr_enr c = 8
          \<and> term_code c = ''20233'' \<and> subject_code c = ''CSCI''"
    by (auto split: sum.splits list.splits)
  from r2 bad e r1 g show ?thesis by blast
qed

section \<open>Properties of parse_select and fetch\<close>

lemma parse_select_loop_accepted:
  "\<forall>el\<in>set els. accepted_child el \<Longrightarrow>
   parse_select_loop out els = Inr (out @ List.map_filter select_entry els)"
proof (induction els arbitrary: out)
  case Nil
  show ?case by (simp add: List.map_filter_simps)
next
  case (Cons el els)
  then have IH: "\<And>out. parse_select_loop out els = Inr (out @ List.map_filter select_entry els)"
    by simp
  from Cons.prems have acc: "accepted_child el" by simp
  show ?case
  proof (cases el)
    case (Tag n a cs)
    with acc obtain v where "map_of a ''value'' = Some v" by auto
    with Tag show ?thesis by (simp add: IH List.map_filter_simps)
  next
    case (NavigableString s)
    with acc show ?thesis by (simp add: IH List.map_filter_simps)
  qed
qed

lemma parse_select_loop_string:
  assumes "\<forall>el\<in>set pre. accepted_child el" and "s \<noteq> [CHR 0x0A]"
  shows "parse_select_loop out (pre @ NavigableString s # post) = Inl TypeError"
  using assms(1)
proof (induction pre arbitrary: out)
  case Nil
  with assms(2) show ?case by simp
next
  case (Cons el pre)
  then have IH: "\<And>out. parse_select_loop out (pre @ NavigableString s # post) = Inl TypeError"
    by simp
  from Cons.prems have acc: "accepted_child el" by simp
  show ?case
  proof (cases el)
    case (Tag n a cs)
    with acc obtain v where "map_of a ''value'' = Some v" by auto
    with Tag show ?thesis by (simp add: IH)
  next
    case (NavigableString s')
    with acc show ?thesis by (simp add: IH)
  qed
qed

lemma parse_select_entries:
  assumes "find_id ident soup = Some (Tag n a els)"
  shows "((\<forall>el\<in>set els. accepted_child el) \<longrightarrow>
            parse_select soup ident = Inr (List.map_filter select_entry els))
       \<and> (\<forall>pre s post. els = pre @ NavigableString s # post
              \<and> (\<forall>el\<in>set pre. accepted_child el) \<and> s \<noteq> [CHR 0x0A]
            \<longrightarrow> parse_select soup ident = Inl TypeError)"
  using assms parse_select_loop_accepted [of els "[]"] parse_select_loop_string [of _ _ "[]"]
  by (auto simp: parse_select_def)

lemma not_done_cases: "\<not> is_done f \<longleftrightarrow> f = Late \<or> f = Never"
  by (cases f) simp_all


lemma succeeded_Done: "succeeded f \<Longrightarrow> f = Done (Inr (rows_of f))"
  by (induction f rule: succeeded.induct) simp_all

lemma results_of_succeeded:
  "\<forall>f\<in>set fl. succeeded f \<Longrightarrow> results_of fl = Inr (map rows_of fl)"
proof (induction fl)
  case Nil
  show ?case by simp
next
  case (Cons f fl)
  then have "f = Done (Inr (rows_of f))" by (simp add: succeeded_Done)
  then have "result f = Inr (rows_of f)" by (metis result.simps(1))
  with Cons show ?case by (simp add: bind_def)
qed

lemma sum_list_permuted:
  assumes "distinct order" and "set order = {0..<length (xs :: nat list)}"
  shows "sum_list (map (\<lambda>i. xs ! i) order) = sum_list xs"
proof -
  have "sum_list (map (\<lambda>i. xs ! i) order) = sum ((!) xs) (set order)"
    using assms(1) by (simp add: sum_list_distinct_conv_sum_set)
  also have "\<dots> = sum ((!) xs) {0..<length xs}" by (simp add: assms(2))
  also have "\<dots> = sum_list xs" by (simp add: sum_list_sum_nth)
  finally show ?thesis .
qed

lemma run_tasks_all_succeeded:
  assumes "\<forall>(trm, subj)\<in>set pairs. succeeded (task trm subj)"
    and "distinct order" and "set order = {0..<length pairs}"
  shows "\<exists>cs. run_tasks task pairs order = Some (Inr cs)
           \<and> length cs = sum_list (map (\<lambda>(trm, subj). length (rows_of (task trm subj))) pairs)"
proof -
  define fs where "fs = map (\<lambda>(trm, subj). task trm subj) pairs"
  have len: "length fs = length pairs" by (simp add: fs_def)
  have ok: "\<forall>f\<in>set fs. succeeded f" using assms(1) by (auto simp: fs_def)
  have dn: "\<forall>f\<in>set fs. is_done f"
  proof
    fix f assume "f \<in> set fs"
    with ok have "succeeded f" by blast
    then have "f = Done (Inr (rows_of f))" by (rule succeeded_Done)
    then show "is_done f" by (metis is_done.simps(1))
  qed
  then have pend: "filter (\<lambda>f. \<not> is_done f) fs = []" by (simp add: filter_empty_conv)
  have ord: "\<forall>i\<in>set order. i < length fs" using assms(3) len by simp
  then have "\<forall>i\<in>set order. i < length fs \<and> is_done (fs ! i)"
    using dn by (metis nth_mem)
  then have fin: "filter (\<lambda>i. i < length fs \<and> is_done (fs ! i)) order = order"
    by (simp only: filter_id_conv)
  define fin where "fin = map (\<lambda>i. fs ! i) order"
  have "\<forall>f\<in>set fin. succeeded f" using ok ord by (auto simp: fin_def)
  then have res: "results_of fin = Inr (map rows_of fin)" by (rule results_of_succeeded)
  have "run_tasks task pairs order =
      (let finished = map (\<lambda>i. fs ! i) (filter (\<lambda>i. i < length fs \<and> is_done (fs ! i)) order);
           pending = filter (\<lambda>f. \<not> is_done f) fs
       in if pending \<noteq> []
          then (if Never \<in> set pending then None
               else Some (Inl (Exception ''some jobs did not complete successfully'')))
          else Some (bind (results_of finished) (\<lambda>result_sets. Inr (concat result_sets))))"
    unfolding run_tasks_def fs_def Let_def ..
  then have run: "run_tasks task pairs order = Some (Inr (concat (map rows_of fin)))"
    unfolding Let_def pend fin fin_def [symmetric] res by (simp add: bind_def)
  define lens where "lens = map (\<lambda>f. length (rows_of f)) fs"
  have "length (concat (map rows_of fin)) = sum_list (map (\<lambda>i. lens ! i) order)"
    using ord by (simp add: length_concat comp_def fin_def lens_def cong: map_cong)
  also have "\<dots> = sum_list lens"
    using assms(2,3) len by (intro sum_list_permuted) (simp_all add: lens_def)
  also have "\<dots> = sum_list (map (\<lambda>(trm, subj). length (rows_of (task trm subj))) pairs)"
    by (simp add: lens_def fs_def comp_def case_prod_unfold)
  finally show ?thesis using run by blast
qed

section \<open>Claims about parse_select and fetch\<close>

text \<open>
  Claim C8. \<open>parse_select\<close> skips a child only when it is the string \<open>"\n"\<close> (the test
  \<open>el != "\n"\<close> of line 121). Between two tags the parser leaves white space as \<open>"\n"\<close>
  when it holds a line feed and as one space otherwise. For a selection list that begins
  with one space, \<open>el['value']\<close> is applied to that string and raises \<open>TypeError\<close>; the
  same list beginning with \<open>"\n"\<close> gives the descriptor of its option.
\<close>

theorem parse_select_space_raises:
  "parse_select
      (example_landing [NavigableString '' '', example_option ''20233'' ''Fall 2023''])
      ''term_code''
     = Inl TypeError
   \<and> parse_select
      (example_landing [NavigableString [CHR 0x0A], example_option ''20233'' ''Fall 2023''])
      ''term_code''
     = Inr [\<lparr>name = ''Fall 2023'', code = ''20233''\<rparr>]"
  by code_simp




text \<open>
  Claim C1. Lines 150 and 151 go through \<open>terms[:1]\<close> and \<open>subjects[:10]\<close>. For a landing
  page with the terms 20233 and 20241 and one subject, one task is submitted, for the first
  term; the pair of the second term is in the cross product and gets no task. The task of
  the second term would raise, and \<open>fetch\<close> returns the empty list.
\<close>

theorem fetch_first_term_only:
  "parse_select (example_landing [example_option ''20233'' ''Fall 2023'',
       example_option ''20241'' ''Spring 2024'']) ''term_code''
     = Inr [\<lparr>name = ''Fall 2023'', code = ''20233''\<rparr>, \<lparr>name = ''Spring 2024'', code = ''20241''\<rparr>]
   \<and> parse_select (example_landing [example_option ''20233'' ''Fall 2023'',
       example_option ''20241'' ''Spring 2024'']) ''term_subj''
     = Inr [\<lparr>name = ''Computer Science'', code = ''CSCI''\<rparr>]
   \<and> submitted_pairs
        [\<lparr>name = ''Fall 2023'', code = ''20233''\<rparr>, \<lparr>name = ''Spring 2024'', code = ''20241''\<rparr>]
        [\<lparr>name = ''Computer Science'', code = ''CSCI''\<rparr>]
     = [(\<lparr>name = ''Fall 2023'', code = ''20233''\<rparr>, \<lparr>name = ''Computer Science'', code = ''CSCI''\<rparr>)]
   \<and> List.product
        [\<lparr>name = ''Fall 2023'', code = ''20233''\<rparr>, \<lparr>name = ''Spring 2024'', code = ''20241''\<rparr>]
        [\<lparr>name = ''Computer Science'', code = ''CSCI''\<rparr>]
     = [(\<lparr>name = ''Fall 2023'', code = ''20233''\<rparr>, \<lparr>name = ''Computer Science'', code = ''CSCI''\<rparr>),
        (\<lparr>name = ''Spring 2024'', code = ''20241''\<rparr>, \<lparr>name = ''Computer Science'', code = ''CSCI''\<rparr>)]
   \<and> example_task \<lparr>name = ''Spring 2024'', code = ''20241''\<rparr>
        \<lparr>name = ''Computer Science'', code = ''CSCI''\<rparr> = Done (Inl ValueError)
   \<and> fetch (example_landing [example_option ''20233'' ''Fall 2023'',
       example_option ''20241'' ''Spring 2024'']) example_task [0] = Some (Inr [])"
  by code_simp

end
